theory Spec2Isabelle
  imports Complex_Main
begin

section \<open>Data model (\<open>src/types.ts\<close>)\<close>

text \<open>
  An optional field is an \<open>option\<close>, with \<open>None\<close> for \<open>undefined\<close>.
  Counters are \<open>nat\<close> (they stay far below \<open>2\<^sup>5\<^sup>3\<close>, where a double counts
  exactly); \<open>maxRetries\<close> and \<open>retryDelay\<close> are integers. The other numbers are
  doubles, \<open>js_number\<close> below.
\<close>

subsection \<open>Numbers\<close>

text \<open>
  A double is \<open>NaN\<close>, an infinity, or a finite value \<open>Num r\<close> with \<open>r\<close> the real
  number it stands for. Zero has one sign here; the code never divides by zero nor
  looks at the sign of a zero.
\<close>

datatype js_number = Num real | NaN | PosInfinity | NegInfinity

text \<open>The number of binary digits of \<open>n\<close>.\<close>

fun bits :: "nat \<Rightarrow> nat" where
  "bits n = (if n = 0 then 0 else Suc (bits (n div 2)))"

declare bits.simps [simp del]

text \<open>For \<open>x > 0\<close>, the \<open>e\<close> with \<open>2\<^sup>e \<le> x < 2\<^sup>e\<^sup>+\<^sup>1\<close>.\<close>

definition exponent :: "real \<Rightarrow> int" where
  "exponent x = (if 1 \<le> x then int (bits (nat \<lfloor>x\<rfloor>)) - 1
                 else - int (bits (nat \<lceil>1 / x\<rceil> - 1)))"

definition pow2 :: "int \<Rightarrow> real" where
  "pow2 e = (if 0 \<le> e then 2 ^ nat e else 1 / 2 ^ nat (- e))"

definition round_half_even :: "real \<Rightarrow> int" where
  "round_half_even y =
     (let n = \<lfloor>y\<rfloor>; f = y - of_int n
      in if f < 1 / 2 then n else if 1 / 2 < f then n + 1 else if even n then n else n + 1)"

text \<open>
  Rounding of a real result to binary64, to nearest with ties to even: 53 significant
  binary digits, the spacing of the subnormals below \<open>2\<^sup>-\<^sup>1\<^sup>0\<^sup>2\<^sup>2\<close>, an infinity from
  \<open>2\<^sup>1\<^sup>0\<^sup>2\<^sup>4\<close> on.
\<close>

definition fl :: "real \<Rightarrow> real" where
  "fl x = (if x = 0 then 0
           else (let q = pow2 (max (exponent \<bar>x\<bar>) (- 1022) - 52)
                 in sgn x * of_int (round_half_even (\<bar>x\<bar> / q)) * q))"

definition to_number :: "real \<Rightarrow> js_number" where
  "to_number x =
     (let y = fl x
      in if y \<noteq> 0 \<and> 1024 \<le> exponent \<bar>y\<bar>
         then (if 0 < y then PosInfinity else NegInfinity) else Num y)"

text \<open>The operators \<open>+\<close>, \<open>*\<close>, \<open>/\<close> and \<open><=\<close> on doubles.\<close>

fun js_plus :: "js_number \<Rightarrow> js_number \<Rightarrow> js_number" where
  "js_plus (Num x) (Num y) = to_number (x + y)"
| "js_plus NaN b = NaN"
| "js_plus a NaN = NaN"
| "js_plus (Num x) b = b"
| "js_plus a (Num y) = a"
| "js_plus a b = (if a = b then a else NaN)"

fun js_times :: "js_number \<Rightarrow> js_number \<Rightarrow> js_number" where
  "js_times (Num x) (Num y) = to_number (x * y)"
| "js_times NaN b = NaN"
| "js_times a NaN = NaN"
| "js_times (Num x) b =
     (if x = 0 then NaN else if (0 < x) = (b = PosInfinity) then PosInfinity else NegInfinity)"
| "js_times a (Num y) =
     (if y = 0 then NaN else if (0 < y) = (a = PosInfinity) then PosInfinity else NegInfinity)"
| "js_times a b = (if a = b then PosInfinity else NegInfinity)"

fun js_divide :: "js_number \<Rightarrow> js_number \<Rightarrow> js_number" where
  "js_divide (Num x) (Num y) =
     (if y = 0 then (if x = 0 then NaN else if 0 < x then PosInfinity else NegInfinity)
      else to_number (x / y))"
| "js_divide NaN b = NaN"
| "js_divide a NaN = NaN"
| "js_divide (Num x) b = Num 0"
| "js_divide a (Num y) = (if (0 \<le> y) = (a = PosInfinity) then PosInfinity else NegInfinity)"
| "js_divide a b = NaN"

fun js_le :: "js_number \<Rightarrow> js_number \<Rightarrow> bool" where
  "js_le (Num x) (Num y) = (x \<le> y)"
| "js_le NaN b = False"
| "js_le a NaN = False"
| "js_le NegInfinity b = True"
| "js_le a PosInfinity = True"
| "js_le a b = False"

text \<open>\<open>a || d\<close> on an optional double: \<open>undefined\<close>, \<open>0\<close> and \<open>NaN\<close> are falsy.\<close>

fun number_or :: "js_number option \<Rightarrow> js_number \<Rightarrow> js_number" where
  "number_or None d = d"
| "number_or (Some (Num r)) d = (if r = 0 then d else Num r)"
| "number_or (Some NaN) d = d"
| "number_or (Some PosInfinity) d = PosInfinity"
| "number_or (Some NegInfinity) d = NegInfinity"

subsection \<open>Interfaces and classes\<close>

record LLMRequest =
  prompt :: string
  maxTokens :: "int option"
  temperature :: "real option"
  topP :: "real option"
  stream :: "bool option"

record TokenUsage =
  promptTokens :: nat
  completionTokens :: nat
  totalTokens :: nat

record LLMResponse =
  content :: string
  usage :: "TokenUsage option"
  resp_model :: string
  resp_provider :: string
  finishReason :: "string option"

record ProviderConfig =
  name :: string
  apiKey :: string
  model :: string
  baseUrl :: "string option"
  weight :: "js_number option"
  timeout :: "js_number option"
  pc_maxRetries :: "int option"

record ProviderStats =
  totalRequests :: nat
  successfulRequests :: nat
  failedRequests :: nat
  averageResponseTime :: js_number
  lastRequestTime :: "nat option"
  isHealthy :: bool

record LLMError =
  message :: string
  provider :: string
  statusCode :: "int option"
  originalError :: "string option"

text \<open>
  What a \<open>throw\<close> can carry: an \<open>LLMError\<close>, any other \<open>Error\<close> (only its
  message is ever read), or a value that is not an \<open>Error\<close> at all.
\<close>

datatype js_exn = LLMErr LLMError | Err string | NonError

datatype LoadBalancerError = LoadBalancerError string "LLMError list"

fun lbe_message :: "LoadBalancerError \<Rightarrow> string" where
  "lbe_message (LoadBalancerError m es) = m"

fun errors :: "LoadBalancerError \<Rightarrow> LLMError list" where
  "errors (LoadBalancerError m es) = es"

text \<open>The four literals of \<open>LoadBalancerConfig.strategy\<close>.\<close>

datatype strategy_kind = RoundRobinKind | FailoverKind | WeightedKind | CustomKind

text \<open>
  A custom strategy function is caller code: it may throw, return a descriptor, or
  return \<open>undefined\<close> (for instance \<open>providers[1]\<close> on a short list).
\<close>

type_synonym custom_fn = "ProviderConfig list \<Rightarrow> js_exn + ProviderConfig option"

record LoadBalancerConfig =
  cfg_strategy :: strategy_kind
  cfg_providers :: "ProviderConfig list"
  customStrategy :: "custom_fn option"
  globalTimeout :: "js_number option"
  maxRetries :: "int option"
  retryDelay :: "int option"

text \<open>The own properties of a statistics object.\<close>

type_synonym stats_map = "string \<rightharpoonup> ProviderStats"

section \<open>JavaScript helpers\<close>

text \<open>\<open>a || d\<close> on an optional integer: \<open>undefined\<close> and \<open>0\<close> are falsy.\<close>

fun or_default :: "'a::zero option \<Rightarrow> 'a \<Rightarrow> 'a" where
  "or_default None d = d"
| "or_default (Some v) d = (if v = 0 then d else v)"

text \<open>\<open>xs[i]\<close>: \<open>undefined\<close> outside the array.\<close>

definition js_index :: "'a list \<Rightarrow> nat \<Rightarrow> 'a option" where
  "js_index xs i = (if i < length xs then Some (xs ! i) else None)"

text \<open>
  \<open>obj[k]\<close> on an ordinary object with own properties \<open>obj\<close>: a key that is not
  an own property is found on \<open>Object.prototype\<close> when it names one of its
  properties. Those values are functions (and the prototype itself for
  \<open>__proto__\<close>): truthy, and without the fields of a statistics record.
\<close>

definition object_prototype_keys :: "string list" where
  "object_prototype_keys =
     [''constructor'', ''hasOwnProperty'', ''isPrototypeOf'', ''propertyIsEnumerable'',
      ''toLocaleString'', ''toString'', ''valueOf'', ''__proto__'', ''__defineGetter__'',
      ''__defineSetter__'', ''__lookupGetter__'', ''__lookupSetter__'']"

datatype 'a property = Own 'a | Inherited | Absent

definition get_property :: "(string \<rightharpoonup> 'a) \<Rightarrow> string \<Rightarrow> 'a property" where
  "get_property obj k =
     (case obj k of
        Some v \<Rightarrow> Own v
      | None \<Rightarrow> if k \<in> set object_prototype_keys then Inherited else Absent)"

text \<open>Decimal rendering of an integer inside a template literal.\<close>

definition digit_char :: "nat \<Rightarrow> char" where
  "digit_char d = ''0123456789'' ! d"

fun string_of_nat :: "nat \<Rightarrow> string" where
  "string_of_nat n =
     (if n < 10 then [digit_char n] else string_of_nat (n div 10) @ [digit_char (n mod 10)])"

declare string_of_nat.simps [simp del]

definition string_of_int :: "int \<Rightarrow> string" where
  "string_of_int i = (if i < 0 then CHR ''-'' # string_of_nat (nat (- i)) else string_of_nat (nat i))"

section \<open>Strategies (\<open>src/strategies.ts\<close>)\<close>

text \<open>
  One constructor per class, carrying the private fields of the class:
  \<open>currentIndex\<close> for round-robin, \<open>cumulativeWeights\<close> and \<open>totalWeight\<close>
  for weighted, \<open>strategyFunction\<close> for custom.
\<close>

datatype LoadBalancingStrategy =
    RoundRobinStrategy nat
  | FailoverStrategy
  | WeightedStrategy "js_number list" js_number
  | CustomStrategy custom_fn

definition no_providers :: js_exn where
  "no_providers = Err ''No providers available''"

text \<open>
  The scan of \<open>FailoverStrategy.selectProvider\<close>; \<open>None\<close> when the loop falls through.
  A value inherited from \<open>Object.prototype\<close> passes neither \<open>!providerStats\<close> nor
  \<open>providerStats.isHealthy\<close>.
\<close>

fun failover_scan :: "ProviderConfig list \<Rightarrow> stats_map \<Rightarrow> ProviderConfig option" where
  "failover_scan [] stats = None"
| "failover_scan (p # ps) stats =
     (case get_property stats (name p) of
        Absent \<Rightarrow> Some p
      | Own providerStats \<Rightarrow> if isHealthy providerStats then Some p else failover_scan ps stats
      | Inherited \<Rightarrow> failover_scan ps stats)"

text \<open>\<open>WeightedStrategy.calculateWeights\<close>: the loop, threading \<open>totalWeight\<close>.\<close>

fun calculateWeights_loop ::
  "ProviderConfig list \<Rightarrow> js_number list \<Rightarrow> js_number \<Rightarrow> js_number list \<times> js_number" where
  "calculateWeights_loop [] cumulativeWeights totalWeight = (cumulativeWeights, totalWeight)"
| "calculateWeights_loop (p # ps) cumulativeWeights totalWeight =
     (let w = number_or (weight p) (Num 1); totalWeight' = js_plus totalWeight w
      in calculateWeights_loop ps (cumulativeWeights @ [totalWeight']) totalWeight')"

definition calculateWeights :: "ProviderConfig list \<Rightarrow> js_number list \<times> js_number" where
  "calculateWeights ps = calculateWeights_loop ps [] (Num 0)"

text \<open>The selection loop of the weighted strategy, from index \<open>i\<close>.\<close>

fun weighted_scan :: "js_number \<Rightarrow> js_number list \<Rightarrow> nat \<Rightarrow> nat option" where
  "weighted_scan random [] i = None"
| "weighted_scan random (c # cs) i =
     (if js_le random c then Some i else weighted_scan random cs (Suc i))"

text \<open>
  \<open>selectProvider(providers, stats)\<close>. The result is the thrown exception or the
  returned value, paired with the strategy object after the call. \<open>rnd\<close> is the value
  \<open>Math.random()\<close> returns during the call, a double in \<open>[0, 1)\<close>.
\<close>

fun selectProvider ::
  "LoadBalancingStrategy \<Rightarrow> ProviderConfig list \<Rightarrow> stats_map \<Rightarrow> real
     \<Rightarrow> (js_exn + ProviderConfig option) \<times> LoadBalancingStrategy" where
  "selectProvider (RoundRobinStrategy currentIndex) ps stats rnd =
     (if length ps = 0 then (Inl no_providers, RoundRobinStrategy currentIndex)
      else (Inr (js_index ps currentIndex),
            RoundRobinStrategy ((currentIndex + 1) mod length ps)))"
| "selectProvider FailoverStrategy ps stats rnd =
     (if length ps = 0 then (Inl no_providers, FailoverStrategy)
      else (case failover_scan ps stats of
              Some p \<Rightarrow> (Inr (Some p), FailoverStrategy)
            | None \<Rightarrow> (Inr (js_index ps 0), FailoverStrategy)))"
| "selectProvider (WeightedStrategy cumulativeWeights totalWeight) ps stats rnd =
     (if length ps = 0 then (Inl no_providers, WeightedStrategy cumulativeWeights totalWeight)
      else
        (let (cw, tw) = (if length cumulativeWeights \<noteq> length ps then calculateWeights ps
                         else (cumulativeWeights, totalWeight));
             random = js_times (Num rnd) tw
         in (case weighted_scan random cw 0 of
               Some i \<Rightarrow> (Inr (js_index ps i), WeightedStrategy cw tw)
             | None \<Rightarrow> (Inr (js_index ps (length ps - 1)), WeightedStrategy cw tw))))"
| "selectProvider (CustomStrategy strategyFunction) ps stats rnd =
     (strategyFunction ps, CustomStrategy strategyFunction)"

text \<open>
  \<open>createStrategy\<close>. The strategy type is one of the four literals of the
  configuration type, so the lookup in \<open>strategyMap\<close> always finds a factory.
\<close>

fun createStrategy ::
  "strategy_kind \<Rightarrow> ProviderConfig list \<Rightarrow> custom_fn option \<Rightarrow> js_exn + LoadBalancingStrategy" where
  "createStrategy RoundRobinKind ps cs = Inr (RoundRobinStrategy 0)"
| "createStrategy FailoverKind ps cs = Inr FailoverStrategy"
| "createStrategy WeightedKind ps cs =
     Inr (WeightedStrategy (fst (calculateWeights ps)) (snd (calculateWeights ps)))"
| "createStrategy CustomKind ps cs =
     (case cs of
        None \<Rightarrow> Inl (Err ''Custom strategy function is required for custom strategy type'')
      | Some f \<Rightarrow> Inr (CustomStrategy f))"

text \<open>The strategy object after \<open>n\<close> successive calls on the same list and statistics.\<close>

fun after_calls ::
  "LoadBalancingStrategy \<Rightarrow> ProviderConfig list \<Rightarrow> stats_map \<Rightarrow> (nat \<Rightarrow> real) \<Rightarrow> nat
     \<Rightarrow> LoadBalancingStrategy" where
  "after_calls s ps stats rnd 0 = s"
| "after_calls s ps stats rnd (Suc n) =
     snd (selectProvider (after_calls s ps stats rnd n) ps stats (rnd n))"

section \<open>Provider adapters (\<open>src/providers.ts\<close>)\<close>

text \<open>
  Only the factory is modelled: an adapter (\<open>provider\<close> in the source, a name
  taken here by the field of \<open>LLMError\<close>) is the class \<open>createProvider\<close> picked
  and the descriptor it was built from. What its \<open>makeRequest\<close> does on the network is
  an input of the model (the \<open>world\<close> below).
\<close>

datatype provider_class =
    OpenAIProvider | ClaudeProvider | GeminiProvider | CohereProvider | MistralProvider
  | PerplexityProvider | OllamaProvider | TogetherProvider | GroqProvider

record BaseProvider =
  provider_class :: provider_class
  provider_config :: ProviderConfig

text \<open>\<open>String.prototype.toLowerCase\<close> on the ASCII letters.\<close>

definition toLowerCase :: "string \<Rightarrow> string" where
  "toLowerCase s =
     map (\<lambda>c. if 65 \<le> (of_char c :: nat) \<and> (of_char c :: nat) \<le> 90
               then char_of ((of_char c :: nat) + 32) else c) s"

definition class_of_name :: "string \<Rightarrow> provider_class option" where
  "class_of_name n =
     (if n = ''openai'' then Some OpenAIProvider
      else if n = ''claude'' then Some ClaudeProvider
      else if n = ''gemini'' then Some GeminiProvider
      else if n = ''cohere'' then Some CohereProvider
      else if n = ''mistral'' then Some MistralProvider
      else if n = ''perplexity'' then Some PerplexityProvider
      else if n = ''ollama'' then Some OllamaProvider
      else if n = ''together'' then Some TogetherProvider
      else if n = ''groq'' then Some GroqProvider
      else None)"

definition createProvider :: "ProviderConfig \<Rightarrow> js_exn + BaseProvider" where
  "createProvider cfg =
     (case class_of_name (toLowerCase (name cfg)) of
        Some c \<Rightarrow> Inr \<lparr>provider_class = c, provider_config = cfg\<rparr>
      | None \<Rightarrow> Inl (Err (''Unsupported provider: '' @ name cfg)))"

section \<open>The load balancer (\<open>src/load-balancer.ts\<close>)\<close>

text \<open>
  \<open>getStats\<close> copies the map but not the \<open>ProviderStats\<close> objects in it, so the
  objects live in a store (\<open>heap\<close>, addressed by position) and \<open>stats\<close> maps a
  provider name to the address of its object. The other fields are those of the class.
  \<open>stats\<close> holds the own properties of \<open>this.stats\<close>; what the class writes
  through an inherited key lands on the inherited value, outside every statistics
  record.
\<close>

type_synonym addr = nat

record LLMLoadBalancer =
  providers :: "string \<rightharpoonup> BaseProvider"
  strategy :: LoadBalancingStrategy
  stats :: "string \<rightharpoonup> addr"
  config :: LoadBalancerConfig
  heap :: "ProviderStats list"

definition deref :: "ProviderStats list \<Rightarrow> addr \<Rightarrow> ProviderStats option" where
  "deref h a = (if a < length h then Some (h ! a) else None)"

text \<open>\<open>this.stats\<close> as a reader sees it: name to current contents of the object.\<close>

definition stats_view :: "LLMLoadBalancer \<Rightarrow> stats_map" where
  "stats_view st = (\<lambda>n. case stats st n of None \<Rightarrow> None | Some a \<Rightarrow> deref (heap st) a)"

text \<open>The object literal that \<open>initializeProviders\<close> and \<open>addProvider\<close> store.\<close>

definition fresh_stats :: ProviderStats where
  "fresh_stats = \<lparr>totalRequests = 0, successfulRequests = 0, failedRequests = 0,
                  averageResponseTime = Num 0, lastRequestTime = None, isHealthy = True\<rparr>"

text \<open>
  What the outside world supplies, indexed by the attempt number (by the position in
  the provider list for a health sweep): the value of \<open>Math.random()\<close>, which promise
  of the race in \<open>makeRequestWithTimeout\<close> settles first (given the adapter, the
  request and the timer's duration), the measured \<open>endTime - startTime\<close> (a
  difference of two millisecond clock readings, an integer), the clock read by
  \<open>new Date()\<close>, the moment at which the race of a health probe settles, and the
  text the engine prints for a number that is not an integer below \<open>2\<^sup>5\<^sup>3\<close>.
\<close>

datatype race_outcome = Resolved LLMResponse | Rejected js_exn | TimerFirst

record world =
  math_random :: "nat \<Rightarrow> real"
  settle :: "nat \<Rightarrow> BaseProvider \<Rightarrow> LLMRequest \<Rightarrow> js_number \<Rightarrow> race_outcome"
  elapsed :: "nat \<Rightarrow> int"
  now :: "nat \<Rightarrow> nat"
  settled_at :: "nat \<Rightarrow> nat"
  number_text :: "real \<Rightarrow> string"

text \<open>A number inside a template literal.\<close>

definition number_to_string :: "world \<Rightarrow> js_number \<Rightarrow> string" where
  "number_to_string w x =
     (case x of
        Num r \<Rightarrow>
          if of_int \<lfloor>r\<rfloor> = r \<and> \<bar>r\<bar> < 9007199254740992 then string_of_int \<lfloor>r\<rfloor>
          else number_text w r
      | NaN \<Rightarrow> ''NaN''
      | PosInfinity \<Rightarrow> ''Infinity''
      | NegInfinity \<Rightarrow> ''-Infinity'')"

text \<open>
  \<open>initializeProviders\<close>, on the three stores it writes. A throw of \<open>createProvider\<close>
  leaves the loop and the constructor.
\<close>

fun initializeProviders ::
  "ProviderConfig list \<Rightarrow> (string \<rightharpoonup> BaseProvider) \<times> (string \<rightharpoonup> addr) \<times> ProviderStats list
     \<Rightarrow> js_exn + (string \<rightharpoonup> BaseProvider) \<times> (string \<rightharpoonup> addr) \<times> ProviderStats list" where
  "initializeProviders [] (pm, sm, h) = Inr (pm, sm, h)"
| "initializeProviders (providerConfig # rest) (pm, sm, h) =
     (case createProvider providerConfig of
        Inl e \<Rightarrow> Inl e
      | Inr adapter \<Rightarrow>
          initializeProviders rest
            (pm(name providerConfig \<mapsto> adapter), sm(name providerConfig \<mapsto> length h),
             h @ [fresh_stats]))"

text \<open>The constructor.\<close>

definition new_LLMLoadBalancer :: "LoadBalancerConfig \<Rightarrow> js_exn + LLMLoadBalancer" where
  "new_LLMLoadBalancer cfg =
     (case initializeProviders (cfg_providers cfg) (Map.empty, Map.empty, []) of
        Inl e \<Rightarrow> Inl e
      | Inr (pm, sm, h) \<Rightarrow>
          (case createStrategy (cfg_strategy cfg) (cfg_providers cfg) (customStrategy cfg) of
             Inl e \<Rightarrow> Inl e
           | Inr s \<Rightarrow> Inr \<lparr>providers = pm, strategy = s, stats = sm, config = cfg, heap = h\<rparr>))"

text \<open>
  The body of \<open>updateStats\<close> once the object is found; \<open>date\<close> is \<open>new Date()\<close>.
  \<open>responseTime\<close> is \<open>endTime - startTime\<close> or \<open>0\<close> at the two calls, an integer.
  The success rate is a quotient of two counters, and its comparison with \<open>0.5\<close>
  comes out the same on doubles and on reals.
\<close>

definition update_record :: "ProviderStats \<Rightarrow> bool \<Rightarrow> int \<Rightarrow> nat \<Rightarrow> ProviderStats" where
  "update_record s success responseTime date =
     (let s1 = s\<lparr>totalRequests := totalRequests s + 1, lastRequestTime := Some date\<rparr>;
          s2 = (if success then
                  (let totalSuccessful = successfulRequests s1 + 1
                   in s1\<lparr>successfulRequests := totalSuccessful,
                         averageResponseTime :=
                           js_divide
                             (js_plus
                                (js_times (averageResponseTime s1) (Num (real totalSuccessful - 1)))
                                (Num (of_int responseTime)))
                             (Num (real totalSuccessful))\<rparr>)
                else s1\<lparr>failedRequests := failedRequests s1 + 1\<rparr>);
          recentSuccessRate = real (successfulRequests s2) / real (totalRequests s2)
      in s2\<lparr>isHealthy := (recentSuccessRate > 1 / 2)\<rparr>)"

text \<open>
  \<open>updateStats\<close>. With an inherited key the guard \<open>if (!stats) return\<close> lets the
  function go on, and its writes land on the inherited value: no record changes.
\<close>

definition updateStats :: "LLMLoadBalancer \<Rightarrow> string \<Rightarrow> bool \<Rightarrow> int \<Rightarrow> nat \<Rightarrow> LLMLoadBalancer" where
  "updateStats st providerName success responseTime date =
     (case get_property (stats st) providerName of
        Absent \<Rightarrow> st
      | Inherited \<Rightarrow> st
      | Own a \<Rightarrow>
          (case deref (heap st) a of
             None \<Rightarrow> st
           | Some s \<Rightarrow> st\<lparr>heap := (heap st)[a := update_record s success responseTime date]\<rparr>))"

text \<open>The \<open>const timeout\<close> of \<open>makeRequestWithTimeout\<close> (\<open>t\<close> there).\<close>

definition request_timeout :: "LoadBalancerConfig \<Rightarrow> ProviderConfig \<Rightarrow> js_number" where
  "request_timeout lbc cfg =
     number_or (timeout cfg) (number_or (globalTimeout lbc) (Num 30000))"

definition makeRequestWithTimeout ::
  "LLMLoadBalancer \<Rightarrow> world \<Rightarrow> nat \<Rightarrow> BaseProvider \<Rightarrow> LLMRequest \<Rightarrow> ProviderConfig
     \<Rightarrow> js_exn + LLMResponse" where
  "makeRequestWithTimeout st w i adapter request cfg =
     (let t = request_timeout (config st) cfg
      in case settle w i adapter request t of
           Resolved response \<Rightarrow> Inr response
         | Rejected e \<Rightarrow> Inl e
         | TimerFirst \<Rightarrow>
             Inl (LLMErr \<lparr>message = ''Request timeout after '' @ number_to_string w t @ ''ms'',
                          provider = name cfg, statusCode = None, originalError = None\<rparr>))"

text \<open>
  Reading \<open>.name\<close> of \<open>undefined\<close> throws a \<open>TypeError\<close>; its message is the
  engine's (V8's here) and nothing below depends on it.
\<close>

definition undefined_name_message :: string where
  "undefined_name_message = ''Cannot read properties of undefined (reading 'name')''"

text \<open>The \<open>try\<close> block of one attempt: the response or the exception it leaves with.\<close>

definition try_block ::
  "LLMLoadBalancer \<Rightarrow> world \<Rightarrow> LLMRequest \<Rightarrow> nat \<Rightarrow> (js_exn + LLMResponse) \<times> LLMLoadBalancer" where
  "try_block st w request attempt =
     (case selectProvider (strategy st) (cfg_providers (config st)) (stats_view st)
             (math_random w attempt) of
        (Inl e, s') \<Rightarrow> (Inl e, st\<lparr>strategy := s'\<rparr>)
      | (Inr None, s') \<Rightarrow> (Inl (Err undefined_name_message), st\<lparr>strategy := s'\<rparr>)
      | (Inr (Some selectedProvider), s') \<Rightarrow>
          (let st1 = st\<lparr>strategy := s'\<rparr>
           in case providers st1 (name selectedProvider) of
                None \<Rightarrow> (Inl (Err (''Provider '' @ name selectedProvider @ '' not found'')), st1)
              | Some adapter \<Rightarrow>
                  (case makeRequestWithTimeout st1 w attempt adapter request selectedProvider of
                     Inl e \<Rightarrow> (Inl e, st1)
                   | Inr response \<Rightarrow>
                       (Inr response,
                        updateStats st1 (name selectedProvider) True (elapsed w attempt)
                          (now w attempt)))))"

text \<open>The first statement of the \<open>catch\<close> block.\<close>

fun to_LLMError :: "js_exn \<Rightarrow> LLMError" where
  "to_LLMError (LLMErr e) = e"
| "to_LLMError (Err m) =
     \<lparr>message = m, provider = ''unknown'', statusCode = None, originalError = None\<rparr>"
| "to_LLMError NonError =
     \<lparr>message = ''Unknown error'', provider = ''unknown'', statusCode = None, originalError = None\<rparr>"

text \<open>
  One attempt: the \<open>try\<close> block, and on an exception the normalised error with the
  statistics update of the \<open>catch\<close> block.
\<close>

definition attempt_body ::
  "LLMLoadBalancer \<Rightarrow> world \<Rightarrow> LLMRequest \<Rightarrow> nat \<Rightarrow> (LLMError + LLMResponse) \<times> LLMLoadBalancer" where
  "attempt_body st w request attempt =
     (case try_block st w request attempt of
        (Inr response, st') \<Rightarrow> (Inr response, st')
      | (Inl e, st') \<Rightarrow>
          (let llmError = to_LLMError e
           in (Inl llmError,
               if provider llmError \<noteq> ''unknown''
               then updateStats st' (provider llmError) False 0 (now w attempt) else st')))"

text \<open>
  The retry loop of \<open>request\<close>, from attempt number \<open>attempt\<close> with the errors collected
  so far; \<open>maxRetries'\<close> and \<open>retryDelay'\<close> are the two constants of that name. The third component of the result lists the arguments of the calls of
  \<open>this.delay\<close>, in order.
\<close>

function request_loop ::
  "LLMLoadBalancer \<Rightarrow> world \<Rightarrow> LLMRequest \<Rightarrow> int \<Rightarrow> int \<Rightarrow> nat \<Rightarrow> LLMError list \<Rightarrow> int list
     \<Rightarrow> (LoadBalancerError + LLMResponse) \<times> LLMLoadBalancer \<times> int list" where
  "request_loop st w request maxRetries' retryDelay' attempt errs delays =
     (if int attempt < maxRetries' then
        (case attempt_body st w request attempt of
           (Inr response, st') \<Rightarrow> (Inr response, st', delays)
         | (Inl llmError, st') \<Rightarrow>
             request_loop st' w request maxRetries' retryDelay' (Suc attempt) (errs @ [llmError])
               (if int attempt < maxRetries' - 1 then delays @ [retryDelay' * 2 ^ attempt]
                else delays))
      else
        (Inl (LoadBalancerError
                (''All providers failed after '' @ string_of_int maxRetries' @ '' attempts'') errs),
         st, delays))"
  by pat_completeness auto
termination
  by (relation "measure (\<lambda>(st, w, request, maxRetries', retryDelay', attempt, errs, delays).
                   nat (maxRetries' - int attempt))") auto

declare request_loop.simps [simp del]

definition request ::
  "LLMLoadBalancer \<Rightarrow> world \<Rightarrow> LLMRequest
     \<Rightarrow> (LoadBalancerError + LLMResponse) \<times> LLMLoadBalancer \<times> int list" where
  "request st w req =
     request_loop st w req (or_default (maxRetries (config st)) 3)
       (or_default (retryDelay (config st)) 1000) 0 [] []"

text \<open>\<open>getStats\<close>: a new map with the same entries, that is, the same object addresses.\<close>

definition getStats :: "LLMLoadBalancer \<Rightarrow> (string \<rightharpoonup> addr)" where
  "getStats st = stats st"

text \<open>
  \<open>this.stats[name].isHealthy = b\<close>; \<open>None\<close> when the lookup gives \<open>undefined\<close>
  (a \<open>TypeError\<close>). With an inherited key the write lands on the inherited value.
\<close>

definition set_isHealthy :: "LLMLoadBalancer \<Rightarrow> string \<Rightarrow> bool \<Rightarrow> LLMLoadBalancer option" where
  "set_isHealthy st n b =
     (case get_property (stats st) n of
        Absent \<Rightarrow> None
      | Inherited \<Rightarrow> Some st
      | Own a \<Rightarrow>
          (case deref (heap st) a of
             None \<Rightarrow> None
           | Some s \<Rightarrow> Some (st\<lparr>heap := (heap st)[a := s\<lparr>isHealthy := b\<rparr>]\<rparr>)))"

definition health_check_request :: LLMRequest where
  "health_check_request =
     \<lparr>prompt = ''Health check'', maxTokens = Some 1, temperature = None, topP = None,
      stream = None\<rparr>"

text \<open>
  \<open>healthCheck\<close> starts one probe per descriptor, in list order: a descriptor without
  adapter is marked \<open>false\<close> at once, the others call \<open>makeRequestWithTimeout\<close>
  and wait.
\<close>

fun start_probes ::
  "LLMLoadBalancer \<Rightarrow> ProviderConfig list \<Rightarrow> (string \<rightharpoonup> bool) \<Rightarrow> (string \<rightharpoonup> bool)" where
  "start_probes st [] healthStatus = healthStatus"
| "start_probes st (providerConfig # rest) healthStatus =
     start_probes st rest
       (case providers st (name providerConfig) of
          None \<Rightarrow> healthStatus(name providerConfig \<mapsto> False)
        | Some adapter \<Rightarrow> healthStatus)"

text \<open>The result of the call the probe at position \<open>i\<close> waits for.\<close>

definition probe_result :: "LLMLoadBalancer \<Rightarrow> world \<Rightarrow> nat \<Rightarrow> (js_exn + LLMResponse) option" where
  "probe_result st w i =
     (let providerConfig = cfg_providers (config st) ! i
      in case providers st (name providerConfig) of
           None \<Rightarrow> None
         | Some adapter \<Rightarrow>
             Some (makeRequestWithTimeout st w i adapter health_check_request
                     (providerConfig\<lparr>timeout := Some (Num 5000)\<rparr>)))"

text \<open>
  What the probe at position \<open>i\<close> does once its call has settled, on the result
  \<open>r\<close> of the call. A missing statistics entry makes the assignment in the \<open>try\<close>
  block throw after \<open>healthStatus\<close> was set, and the one in the \<open>catch\<close> block
  throw again.
\<close>

definition probe_settled ::
  "ProviderConfig \<Rightarrow> js_exn + LLMResponse \<Rightarrow> (string \<rightharpoonup> bool) \<times> LLMLoadBalancer
     \<Rightarrow> (string \<rightharpoonup> bool) \<times> LLMLoadBalancer" where
  "probe_settled providerConfig r = (\<lambda>(healthStatus, st).
     (case r of
        Inr response \<Rightarrow>
          (case set_isHealthy st (name providerConfig) True of
             Some st' \<Rightarrow> (healthStatus(name providerConfig \<mapsto> True), st')
           | None \<Rightarrow> (healthStatus(name providerConfig \<mapsto> False), st))
      | Inl e \<Rightarrow>
          (healthStatus(name providerConfig \<mapsto> False),
           case set_isHealthy st (name providerConfig) False of
             Some st' \<Rightarrow> st' | None \<Rightarrow> st)))"

text \<open>
  The positions whose probe waits for a call, in the order in which the calls settle
  (\<open>sort_key\<close> keeps the list order among equal moments).
\<close>

definition settle_order :: "LLMLoadBalancer \<Rightarrow> world \<Rightarrow> nat list" where
  "settle_order st w =
     sort_key (settled_at w)
       (filter (\<lambda>i. providers st (name (cfg_providers (config st) ! i)) \<noteq> None)
          [0..<length (cfg_providers (config st))])"

text \<open>The probes of the positions \<open>is\<close> finish one after the other; \<open>st0\<close> is the state in which they were started.\<close>

fun finish_probes ::
  "LLMLoadBalancer \<Rightarrow> world \<Rightarrow> nat list \<Rightarrow> (string \<rightharpoonup> bool) \<times> LLMLoadBalancer
     \<Rightarrow> (string \<rightharpoonup> bool) \<times> LLMLoadBalancer" where
  "finish_probes st0 w [] acc = acc"
| "finish_probes st0 w (i # rest) acc =
     finish_probes st0 w rest
       (case probe_result st0 w i of
          None \<Rightarrow> acc
        | Some r \<Rightarrow> probe_settled (cfg_providers (config st0) ! i) r acc)"

text \<open>\<open>healthCheck\<close>: all probes are started, then they finish in the order the world gives.\<close>

definition healthCheck :: "LLMLoadBalancer \<Rightarrow> world \<Rightarrow> (string \<rightharpoonup> bool) \<times> LLMLoadBalancer" where
  "healthCheck st w =
     finish_probes st w (settle_order st w)
       (start_probes st (cfg_providers (config st)) Map.empty, st)"

text \<open>
  \<open>addProvider\<close> and \<open>removeProvider\<close> return nothing; the first component is the
  exception they leave with, if any. A throw of \<open>createStrategy\<close> comes after the
  other fields were written.
\<close>

definition rebuild_strategy :: "LLMLoadBalancer \<Rightarrow> js_exn option \<times> LLMLoadBalancer" where
  "rebuild_strategy st =
     (case createStrategy (cfg_strategy (config st)) (cfg_providers (config st))
             (customStrategy (config st)) of
        Inl e \<Rightarrow> (Some e, st)
      | Inr s \<Rightarrow> (None, st\<lparr>strategy := s\<rparr>))"

definition addProvider :: "LLMLoadBalancer \<Rightarrow> ProviderConfig \<Rightarrow> js_exn option \<times> LLMLoadBalancer" where
  "addProvider st cfg =
     (case createProvider cfg of
        Inl e \<Rightarrow> (Some e, st)
      | Inr adapter \<Rightarrow>
          rebuild_strategy
            (st\<lparr>providers := (providers st)(name cfg \<mapsto> adapter),
                config := (config st)\<lparr>cfg_providers := cfg_providers (config st) @ [cfg]\<rparr>,
                stats := (stats st)(name cfg \<mapsto> length (heap st)),
                heap := heap st @ [fresh_stats]\<rparr>))"

definition removeProvider :: "LLMLoadBalancer \<Rightarrow> string \<Rightarrow> js_exn option \<times> LLMLoadBalancer" where
  "removeProvider st providerName =
     rebuild_strategy
       (st\<lparr>providers := (providers st)(providerName := None),
           config := (config st)\<lparr>cfg_providers :=
                        filter (\<lambda>p. name p \<noteq> providerName) (cfg_providers (config st))\<rparr>,
           stats := (stats st)(providerName := None)\<rparr>)"

section \<open>Runs of the operations\<close>

text \<open>
  The public operations of the class, and the statistics update on its own
  (\<open>updateStats\<close>, which the class calls after an attempt).
\<close>

datatype operation =
    Request world LLMRequest
  | HealthCheck world
  | AddProvider ProviderConfig
  | RemoveProvider string
  | RecordAttempt string bool int nat

fun is_HealthCheck :: "operation \<Rightarrow> bool" where
  "is_HealthCheck (HealthCheck w) = True"
| "is_HealthCheck _ = False"

fun apply_op :: "LLMLoadBalancer \<Rightarrow> operation \<Rightarrow> LLMLoadBalancer" where
  "apply_op st (Request w req) = fst (snd (request st w req))"
| "apply_op st (HealthCheck w) = snd (healthCheck st w)"
| "apply_op st (AddProvider cfg) = snd (addProvider st cfg)"
| "apply_op st (RemoveProvider n) = snd (removeProvider st n)"
| "apply_op st (RecordAttempt n success responseTime date) =
     updateStats st n success responseTime date"

definition run :: "LLMLoadBalancer \<Rightarrow> operation list \<Rightarrow> LLMLoadBalancer" where
  "run st ops = foldl apply_op st ops"

text \<open>The state in which attempt \<open>i\<close> of a request starts, when the earlier ones failed.\<close>

fun state_before :: "LLMLoadBalancer \<Rightarrow> world \<Rightarrow> LLMRequest \<Rightarrow> nat \<Rightarrow> LLMLoadBalancer" where
  "state_before st w req 0 = st"
| "state_before st w req (Suc i) = snd (attempt_body (state_before st w req i) w req i)"

section \<open>Auxiliary notions\<close>

text \<open>Successive calls of \<open>updateStats\<close>, each with its arguments and clock value.\<close>

definition record_attempts ::
  "LLMLoadBalancer \<Rightarrow> (string \<times> bool \<times> int \<times> nat) list \<Rightarrow> LLMLoadBalancer" where
  "record_attempts st ups = foldl (\<lambda>st (n, ok, rt, d). updateStats st n ok rt d) st ups"

text \<open>The latencies of the successful updates of provider \<open>n\<close>, in order.\<close>

definition successful_latencies :: "string \<Rightarrow> (string \<times> bool \<times> int \<times> nat) list \<Rightarrow> int list" where
  "successful_latencies n ups =
     map (\<lambda>(m, ok, rt, d). rt) (filter (\<lambda>(m, ok, rt, d). m = n \<and> ok) ups)"

text \<open>The arithmetic mean, as a real number.\<close>

definition mean :: "int list \<Rightarrow> real" where
  "mean ls = (if ls = [] then 0 else real_of_int (sum_list ls) / real (length ls))"

text \<open>
  The incremental mean in the words of the specification,
  \<open>newAvg = (oldAvg * (successfulCount - 1) + elapsedMs) / successfulCount\<close>, run over
  the latencies in order on doubles; \<open>count\<close> successes came before.
\<close>

fun incremental_mean_from :: "js_number \<Rightarrow> nat \<Rightarrow> int list \<Rightarrow> js_number" where
  "incremental_mean_from oldAvg count [] = oldAvg"
| "incremental_mean_from oldAvg count (elapsedMs # rest) =
     (let successfulCount = Suc count;
          newAvg = js_divide
                     (js_plus (js_times oldAvg (Num (real successfulCount - 1)))
                        (Num (of_int elapsedMs)))
                     (Num (real successfulCount))
      in incremental_mean_from newAvg successfulCount rest)"

definition incremental_mean :: "int list \<Rightarrow> js_number" where
  "incremental_mean ls = incremental_mean_from (Num 0) 0 ls"

text \<open>
  No step of the incremental mean rounds: each product, sum and quotient, taken on the
  reals from the exact mean \<open>m\<close> of the \<open>count\<close> latencies before, is a double.
\<close>

fun exact_steps_from :: "real \<Rightarrow> nat \<Rightarrow> int list \<Rightarrow> bool" where
  "exact_steps_from m count [] = True"
| "exact_steps_from m count (x # rest) =
     (to_number (m * real count) = Num (m * real count)
      \<and> to_number (m * real count + of_int x) = Num (m * real count + of_int x)
      \<and> to_number ((m * real count + of_int x) / real (Suc count))
            = Num ((m * real count + of_int x) / real (Suc count))
      \<and> exact_steps_from ((m * real count + of_int x) / real (Suc count)) (Suc count) rest)"

definition exact_steps :: "int list \<Rightarrow> bool" where
  "exact_steps ls = exact_steps_from 0 0 ls"

text \<open>
  The rule of the specification for the health flag: the success rate above one half
  once there was an attempt, healthy before.
\<close>

definition health_rule :: "ProviderStats \<Rightarrow> bool" where
  "health_rule s =
     (if 0 < totalRequests s
      then isHealthy s = (real (successfulRequests s) / real (totalRequests s) > 1 / 2)
      else isHealthy s)"

text \<open>
  The probes of a health sweep that concern the name \<open>n\<close>, in the order in which
  they settle.
\<close>

definition probes_of :: "LLMLoadBalancer \<Rightarrow> world \<Rightarrow> string \<Rightarrow> nat list" where
  "probes_of st w n =
     filter (\<lambda>i. name (cfg_providers (config st) ! i) = n) (settle_order st w)"

text \<open>
  The states that statistics updates and changes of the strategy object lead to from
  a state: what an attempt, and so a request, does to the balancer.
\<close>

inductive updated :: "LLMLoadBalancer \<Rightarrow> LLMLoadBalancer \<Rightarrow> bool" where
  updated_refl: "updated st st"
| updated_strategy: "updated st st' \<Longrightarrow> updated st (st'\<lparr>strategy := g\<rparr>)"
| updated_stats: "updated st st' \<Longrightarrow> updated st (updateStats st' n ok rt d)"

text \<open>
  Every name with statistics has a record of its own in the store: what the
  constructor establishes and every operation keeps.
\<close>

definition own_records :: "LLMLoadBalancer \<Rightarrow> bool" where
  "own_records st \<longleftrightarrow>
     (\<forall>n a. stats st n = Some a \<longrightarrow>
        a < length (heap st) \<and> (\<forall>m. m \<noteq> n \<longrightarrow> stats st m \<noteq> Some a))"

text \<open>What a caller holding the map returned by \<open>getStats\<close> reads at \<open>snapshot[n]\<close> in state \<open>st\<close>.\<close>

definition read_snapshot :: "(string \<rightharpoonup> addr) \<Rightarrow> LLMLoadBalancer \<Rightarrow> string \<Rightarrow> ProviderStats option" where
  "read_snapshot snapshot st n = (case snapshot n of None \<Rightarrow> None | Some a \<Rightarrow> deref (heap st) a)"

text \<open>Names and configuration agree: what the constructor establishes and every operation keeps.\<close>

definition consistent :: "LLMLoadBalancer \<Rightarrow> bool" where
  "consistent st \<longleftrightarrow>
     (\<forall>n\<in>dom (providers st). class_of_name (toLowerCase n) \<noteq> None)
     \<and> dom (providers st) = name ` set (cfg_providers (config st))
     \<and> (cfg_strategy (config st) = CustomKind \<longrightarrow> customStrategy (config st) \<noteq> None)"

section \<open>Fixtures\<close>

text \<open>
  Descriptors of the test suite, worlds whose adapters always fail, always succeed or
  never answer in time, and the balancer the constructor builds for one provider.
\<close>

definition openai :: ProviderConfig where
  "openai = \<lparr>name = ''openai'', apiKey = ''test-key-1'', model = ''gpt-3.5-turbo'',
             baseUrl = None, weight = None, timeout = None, pc_maxRetries = None\<rparr>"

definition claude :: ProviderConfig where
  "claude = \<lparr>name = ''claude'', apiKey = ''test-key-2'', model = ''claude-3-haiku'',
             baseUrl = None, weight = None, timeout = None, pc_maxRetries = None\<rparr>"

definition api_error :: LLMError where
  "api_error = \<lparr>message = ''API Error'', provider = ''openai'', statusCode = None,
                originalError = Some ''API Error''\<rparr>"

definition failing_world :: world where
  "failing_world = \<lparr>math_random = (\<lambda>i. 0), settle = (\<lambda>i p r t. Rejected (LLMErr api_error)),
                    elapsed = (\<lambda>i. 0), now = (\<lambda>i. 0), settled_at = (\<lambda>i. i),
                    number_text = (\<lambda>r. [])\<rparr>"

definition ok_response :: LLMResponse where
  "ok_response = \<lparr>content = ''Response'', usage = None, resp_model = ''gpt-3.5-turbo'',
                  resp_provider = ''openai'', finishReason = Some ''stop''\<rparr>"

definition ok_world :: world where
  "ok_world = \<lparr>math_random = (\<lambda>i. 0), settle = (\<lambda>i p r t. Resolved ok_response),
               elapsed = (\<lambda>i. 120), now = (\<lambda>i. 0), settled_at = (\<lambda>i. i),
               number_text = (\<lambda>r. [])\<rparr>"

definition test_request :: LLMRequest where
  "test_request = \<lparr>prompt = ''Test prompt'', maxTokens = None, temperature = None,
                   topP = None, stream = None\<rparr>"

definition single_config :: LoadBalancerConfig where
  "single_config = \<lparr>cfg_strategy = RoundRobinKind, cfg_providers = [openai],
                    customStrategy = None, globalTimeout = None, maxRetries = Some 2,
                    retryDelay = Some 10\<rparr>"

definition unhealthy_stats :: "string \<rightharpoonup> ProviderStats" where
  "unhealthy_stats = [''openai'' \<mapsto> fresh_stats\<lparr>isHealthy := False\<rparr>]"

definition single_balancer :: LLMLoadBalancer where
  "single_balancer =
     \<lparr>providers = [''openai'' \<mapsto> \<lparr>provider_class = OpenAIProvider, provider_config = openai\<rparr>],
      strategy = RoundRobinStrategy 0, stats = [''openai'' \<mapsto> 0], config = single_config,
      heap = [fresh_stats]\<rparr>"

definition sample_updates :: "(string \<times> bool \<times> int \<times> nat) list" where
  "sample_updates = [(''openai'', True, 100, 1), (''openai'', False, 0, 2), (''openai'', True, 200, 3)]"

definition zero_config :: LoadBalancerConfig where
  "zero_config = single_config\<lparr>maxRetries := Some 0, retryDelay := Some 0\<rparr>"

definition zero_balancer :: LLMLoadBalancer where
  "zero_balancer = single_balancer\<lparr>config := zero_config\<rparr>"

definition slow_world :: world where
  "slow_world = \<lparr>math_random = (\<lambda>i. 0), settle = (\<lambda>i p r t. TimerFirst),
                 elapsed = (\<lambda>i. 0), now = (\<lambda>i. 0), settled_at = (\<lambda>i. i),
                 number_text = (\<lambda>r. [])\<rparr>"

text \<open>
  The custom strategy of the test suite, \<open>(providers) => providers[1]\<close>, on a
  balancer configured without providers.
\<close>

definition second_provider :: custom_fn where
  "second_provider ps = Inr (js_index ps 1)"

definition empty_custom_config :: LoadBalancerConfig where
  "empty_custom_config = \<lparr>cfg_strategy = CustomKind, cfg_providers = [],
                          customStrategy = Some second_provider, globalTimeout = None,
                          maxRetries = None, retryDelay = None\<rparr>"

definition empty_custom_balancer :: LLMLoadBalancer where
  "empty_custom_balancer =
     \<lparr>providers = Map.empty, strategy = CustomStrategy second_provider, stats = Map.empty,
      config = empty_custom_config, heap = []\<rparr>"

definition rekeyed_openai :: ProviderConfig where
  "rekeyed_openai = openai\<lparr>apiKey := ''new-key''\<rparr>"

text \<open>A descriptor whose name is a property of \<open>Object.prototype\<close>.\<close>

definition constructor_provider :: ProviderConfig where
  "constructor_provider = \<lparr>name = ''constructor'', apiKey = ''test-key-0'', model = ''gpt-4'',
                           baseUrl = None, weight = None, timeout = None, pc_maxRetries = None\<rparr>"

text \<open>Eight successful latencies whose mean is 8 and whose incremental mean rounds.\<close>

definition rounding_latencies :: "int list" where
  "rounding_latencies = [9, 9, 9, 9, 9, 9, 7, 3]"

definition rounding_updates :: "(string \<times> bool \<times> int \<times> nat) list" where
  "rounding_updates = map (\<lambda>x. (''openai'', True, x, 0)) rounding_latencies"

text \<open>
  A balancer for one provider whose descriptor has the timeout \<open>t\<close>, configured with
  the global timeout \<open>g\<close>.
\<close>

definition timeout_config :: "js_number option \<Rightarrow> js_number option \<Rightarrow> LoadBalancerConfig" where
  "timeout_config t g =
     single_config\<lparr>cfg_providers := [openai\<lparr>timeout := t\<rparr>], globalTimeout := g\<rparr>"

definition timeout_balancer :: "js_number option \<Rightarrow> js_number option \<Rightarrow> LLMLoadBalancer" where
  "timeout_balancer t g =
     \<lparr>providers = [''openai'' \<mapsto> \<lparr>provider_class = OpenAIProvider,
                                    provider_config = openai\<lparr>timeout := t\<rparr>\<rparr>],
      strategy = RoundRobinStrategy 0, stats = [''openai'' \<mapsto> 0],
      config = timeout_config t g, heap = [fresh_stats]\<rparr>"

section \<open>Properties of the strategies\<close>

lemma after_calls_round_robin:
  "ps \<noteq> [] \<Longrightarrow>
     after_calls (RoundRobinStrategy 0) ps sm rnd i = RoundRobinStrategy (i mod length ps)"
proof (induction i)
  case 0
  then show ?case by simp
next
  case (Suc i)
  then show ?case by (simp add: mod_Suc_eq)
qed

text \<open>
  C5. On a fixed non-empty list, call number \<open>i\<close> (from 0) of a fresh round-robin
  strategy returns \<open>providers[i mod N]\<close>; the first \<open>N\<close> calls return the list in
  order, and the next call returns the first provider again.
\<close>

theorem round_robin_ith_call:
  assumes "createStrategy RoundRobinKind ps cs = Inr s" and "ps \<noteq> []"
  shows "fst (selectProvider (after_calls s ps sm rnd i) ps sm r)
           = Inr (Some (ps ! (i mod length ps)))
       \<and> map (\<lambda>i. fst (selectProvider (after_calls s ps sm rnd i) ps sm r)) [0..<length ps]
           = map (\<lambda>p. Inr (Some p)) ps
       \<and> fst (selectProvider (after_calls s ps sm rnd (length ps)) ps sm r) = Inr (Some (ps ! 0))"
proof -
  from assms(1) have s: "s = RoundRobinStrategy 0" by auto
  have ith: "fst (selectProvider (after_calls s ps sm rnd i) ps sm r)
               = Inr (Some (ps ! (i mod length ps)))" for i
    using assms(2) by (simp add: s after_calls_round_robin js_index_def)
  have "map (\<lambda>i. fst (selectProvider (after_calls s ps sm rnd i) ps sm r)) [0..<length ps]
        = map (\<lambda>i. Inr (Some (ps ! i))) [0..<length ps]"
    by (rule map_cong) (simp_all add: ith)
  also have "\<dots> = map (\<lambda>p. Inr (Some p)) (map ((!) ps) [0..<length ps])"
    by (simp add: comp_def)
  also have "\<dots> = map (\<lambda>p. Inr (Some p)) ps"
    by (simp only: map_nth)
  finally show ?thesis using ith [of i] ith [of "length ps"] by simp
qed

theorem round_robin_ith_call_witness:
  "createStrategy RoundRobinKind [openai, claude] None = Inr (RoundRobinStrategy 0)
   \<and> [openai, claude] \<noteq> []
   \<and> fst (selectProvider (after_calls (RoundRobinStrategy 0) [openai, claude] Map.empty (\<lambda>i. 0) 3)
            [openai, claude] Map.empty 0) = Inr (Some claude)"
proof -
  have a: "createStrategy RoundRobinKind [openai, claude] None = Inr (RoundRobinStrategy 0)"
    by simp
  have b: "[openai, claude] \<noteq> []" by simp
  have "fst (selectProvider (after_calls (RoundRobinStrategy 0) [openai, claude] Map.empty (\<lambda>i. 0) 3)
            [openai, claude] Map.empty 0) = Inr (Some ([openai, claude] ! (3 mod length [openai, claude])))"
    using round_robin_ith_call [OF a b] by (rule conjunct1)
  moreover have "[openai, claude] ! (3 mod length [openai, claude]) = claude"
    by (simp add: numeral_3_eq_3 mod_Suc)
  ultimately show ?thesis using a b by (simp only: simp_thms)
qed

text \<open>A provider passes the test of the failover scan.\<close>

lemma failover_scan_Some:
  "failover_scan ps sm = Some p \<Longrightarrow>
     \<exists>i<length ps. p = ps ! i
        \<and> (case get_property sm (name (ps ! i)) of
              Absent \<Rightarrow> True | Own s \<Rightarrow> isHealthy s | Inherited \<Rightarrow> False)
        \<and> (\<forall>j<i. \<not> (case get_property sm (name (ps ! j)) of
                        Absent \<Rightarrow> True | Own s \<Rightarrow> isHealthy s | Inherited \<Rightarrow> False))"
proof (induction ps)
  case Nil
  then show ?case by simp
next
  case (Cons q ps)
  let ?ok = "\<lambda>p. case get_property sm (name p) of
                     Absent \<Rightarrow> True | Own s \<Rightarrow> isHealthy s | Inherited \<Rightarrow> False"
  show ?case
  proof (cases "?ok q")
    case True
    with Cons.prems have "p = q" by (auto split: property.splits)
    with True show ?thesis by (intro exI [of _ 0]) simp
  next
    case False
    with Cons.prems have "failover_scan ps sm = Some p" by (auto split: property.splits)
    from Cons.IH [OF this] obtain i where i: "i < length ps" "p = ps ! i"
      "?ok (ps ! i)" "\<forall>j<i. \<not> ?ok (ps ! j)"
      by blast
    have "\<forall>j<Suc i. \<not> ?ok ((q # ps) ! j)"
      using False i(4) by (auto simp: less_Suc_eq_0_disj)
    with i(1-3) show ?thesis by (intro exI [of _ "Suc i"]) simp
  qed
qed

lemma failover_scan_None:
  "failover_scan ps sm = None \<Longrightarrow>
     \<forall>j<length ps. \<not> (case get_property sm (name (ps ! j)) of
                        Absent \<Rightarrow> True | Own s \<Rightarrow> isHealthy s | Inherited \<Rightarrow> False)"
proof (induction ps)
  case Nil
  then show ?case by simp
next
  case (Cons q ps)
  then show ?case by (auto simp: less_Suc_eq_0_disj split: property.splits if_splits)
qed

text \<open>
  What the failover strategy does on a non-empty list: it returns the first provider
  for which \<open>stats[name]\<close> is \<open>undefined\<close> or a record with \<open>isHealthy\<close>, and
  the first of the list when there is none. For a name that \<open>Object.prototype\<close>
  does not know, \<open>stats[name]\<close> is \<open>undefined\<close> exactly when the entry is absent.
\<close>

lemma failover_first_passing:
  assumes "ps \<noteq> []"
  shows "\<exists>p. selectProvider FailoverStrategy ps sm rnd = (Inr (Some p), FailoverStrategy)
     \<and> ((\<exists>i<length ps. p = ps ! i
            \<and> (case get_property sm (name (ps ! i)) of
                  Absent \<Rightarrow> True | Own s \<Rightarrow> isHealthy s | Inherited \<Rightarrow> False)
            \<and> (\<forall>j<i. \<not> (case get_property sm (name (ps ! j)) of
                            Absent \<Rightarrow> True | Own s \<Rightarrow> isHealthy s | Inherited \<Rightarrow> False)))
        \<or> ((\<forall>j<length ps. \<not> (case get_property sm (name (ps ! j)) of
                            Absent \<Rightarrow> True | Own s \<Rightarrow> isHealthy s | Inherited \<Rightarrow> False))
            \<and> p = ps ! 0))"
proof (cases "failover_scan ps sm")
  case None
  from failover_scan_None [OF None] assms show ?thesis
    by (simp add: None js_index_def)
next
  case (Some p)
  from failover_scan_Some [OF Some] assms show ?thesis
    by (simp add: Some)
qed

lemma get_property_ordinary:
  "k \<notin> set object_prototype_keys \<Longrightarrow>
     get_property obj k = (case obj k of None \<Rightarrow> Absent | Some v \<Rightarrow> Own v)"
  by (simp add: get_property_def split: option.splits)

text \<open>
  C6. A provider named \<open>constructor\<close> has no statistics entry and stands first in the
  list, yet the failover strategy passes over it and returns the second provider:
  \<open>stats['constructor']\<close> is the function every object inherits, not \<open>undefined\<close>.
  A provider with an ordinary name and no entry is returned at once.
\<close>

theorem failover_skips_inherited_name:
  "Map.empty (name constructor_provider) = (None :: ProviderStats option)
   \<and> selectProvider FailoverStrategy [constructor_provider, claude] Map.empty r
       = (Inr (Some claude), FailoverStrategy)
   \<and> selectProvider FailoverStrategy [openai, claude] Map.empty r
       = (Inr (Some openai), FailoverStrategy)"
  by (simp add: get_property_def object_prototype_keys_def constructor_provider_def claude_def
      openai_def)

text \<open>
  C3. With an empty list, round-robin, failover and weighted throw
  \<open>No providers available\<close>. The custom strategy has no such guard: it hands the empty
  list to the caller's function and returns whatever that returns, a descriptor or
  \<open>undefined\<close>. A balancer built with the custom strategy and no providers reaches
  this from \<open>request\<close>, and the attempt ends in the \<open>TypeError\<close> of reading
  \<open>.name\<close> of \<open>undefined\<close>.
\<close>

theorem custom_strategy_unguarded:
  "fst (selectProvider (RoundRobinStrategy c) [] sm r) = Inl (Err ''No providers available'')
   \<and> fst (selectProvider FailoverStrategy [] sm r) = Inl (Err ''No providers available'')
   \<and> fst (selectProvider (WeightedStrategy cw tw) [] sm r) = Inl (Err ''No providers available'')
   \<and> fst (selectProvider (CustomStrategy (\<lambda>providers. Inr (Some claude))) [] sm r)
       = Inr (Some claude)
   \<and> fst (selectProvider (CustomStrategy second_provider) [] sm r) = Inr None
   \<and> new_LLMLoadBalancer empty_custom_config = Inr empty_custom_balancer
   \<and> fst (attempt_body empty_custom_balancer failing_world test_request 0)
       = Inl \<lparr>message = undefined_name_message, provider = ''unknown'', statusCode = None,
              originalError = None\<rparr>"
proof -
  have "new_LLMLoadBalancer empty_custom_config = Inr empty_custom_balancer"
    by (simp add: new_LLMLoadBalancer_def empty_custom_config_def empty_custom_balancer_def)
  moreover have "fst (attempt_body empty_custom_balancer failing_world test_request 0)
       = Inl \<lparr>message = undefined_name_message, provider = ''unknown'', statusCode = None,
              originalError = None\<rparr>"
    by (simp add: attempt_body_def try_block_def empty_custom_balancer_def empty_custom_config_def
        second_provider_def js_index_def)
  ultimately show ?thesis
    by (simp add: no_providers_def js_index_def second_provider_def)
qed

section \<open>Statistics\<close>

lemma bits_simps [simp]:
  "bits 0 = 0" "bits (Suc 0) = Suc 0" "bits (numeral k) = Suc (bits (numeral k div 2))"
  by (simp_all add: bits.simps [of 0] bits.simps [of "Suc 0"] bits.simps [of "numeral k"])

lemmas number_defs = to_number_def fl_def exponent_def pow2_def round_half_even_def Let_def

lemma to_number_0 [simp]: "to_number 0 = Num 0"
  by (simp add: to_number_def fl_def)

lemma update_record_failure_avg:
  "averageResponseTime (update_record s False rt d) = averageResponseTime s"
  by (simp add: update_record_def Let_def)

lemma update_record_incremental:
  "averageResponseTime (update_record s ok rt d)
     = incremental_mean_from (averageResponseTime s) (successfulRequests s) (if ok then [rt] else [])
   \<and> successfulRequests (update_record s ok rt d)
       = successfulRequests s + length (if ok then [rt] else [])"
  by (simp add: update_record_def Let_def)

lemma incremental_mean_from_append:
  "incremental_mean_from a k (xs @ ys)
     = incremental_mean_from (incremental_mean_from a k xs) (k + length xs) ys"
  by (induction xs arbitrary: a k) (simp_all add: Let_def)

lemma mean_snoc:
  "(mean ls * real (length ls) + real_of_int x) / real (Suc (length ls)) = mean (ls @ [x])"
  by (simp add: mean_def)

lemma exact_steps_from_mean:
  "exact_steps_from (mean pre) (length pre) xs \<Longrightarrow>
     incremental_mean_from (Num (mean pre)) (length pre) xs = Num (mean (pre @ xs))"
proof (induction xs arbitrary: pre)
  case Nil
  then show ?case by simp
next
  case (Cons x xs)
  let ?m = "mean pre" and ?k = "length pre"
  from Cons.prems have
    p: "to_number (?m * real ?k) = Num (?m * real ?k)"
    and q: "to_number (?m * real ?k + of_int x) = Num (?m * real ?k + of_int x)"
    and r: "to_number ((?m * real ?k + of_int x) / real (Suc ?k))
              = Num ((?m * real ?k + of_int x) / real (Suc ?k))"
    and rest: "exact_steps_from ((?m * real ?k + of_int x) / real (Suc ?k)) (Suc ?k) xs"
    by simp_all
  have m: "(?m * real ?k + of_int x) / real (Suc ?k) = mean (pre @ [x])"
    by (rule mean_snoc)
  have step: "js_divide (js_plus (js_times (Num ?m) (Num (real (Suc ?k) - 1))) (Num (of_int x)))
                (Num (real (Suc ?k))) = Num (mean (pre @ [x]))"
    using p q r by (simp add: m [symmetric])
  from rest have "exact_steps_from (mean (pre @ [x])) (length (pre @ [x])) xs"
    unfolding m by simp
  from Cons.IH [OF this] step show ?case by (simp add: Let_def)
qed

lemma updateStats_stats [simp]: "stats (updateStats st n ok rt d) = stats st"
  by (simp add: updateStats_def split: property.splits option.splits)

lemma updateStats_length_heap [simp]: "length (heap (updateStats st n ok rt d)) = length (heap st)"
  by (simp add: updateStats_def split: property.splits option.splits)

lemma updateStats_heap_same:
  "stats st n = Some a \<Longrightarrow> a < length (heap st) \<Longrightarrow>
     heap (updateStats st n ok rt d) ! a = update_record (heap st ! a) ok rt d"
  by (simp add: updateStats_def get_property_def deref_def)

lemma updateStats_heap_other:
  "stats st m \<noteq> Some a \<Longrightarrow> heap (updateStats st m ok rt d) ! a = heap st ! a"
  by (auto simp: updateStats_def get_property_def deref_def split: option.splits)

lemma record_attempts_incremental:
  assumes "stats st n = Some a" and "a < length (heap st)"
    and "\<forall>m. m \<noteq> n \<longrightarrow> stats st m \<noteq> Some a"
  shows "stats (record_attempts st ups) = stats st
       \<and> length (heap (record_attempts st ups)) = length (heap st)
       \<and> averageResponseTime (heap (record_attempts st ups) ! a)
           = incremental_mean_from (averageResponseTime (heap st ! a))
               (successfulRequests (heap st ! a)) (successful_latencies n ups)
       \<and> successfulRequests (heap (record_attempts st ups) ! a)
           = successfulRequests (heap st ! a) + length (successful_latencies n ups)"
  using assms
proof (induction ups arbitrary: st)
  case Nil
  then show ?case by (simp add: record_attempts_def successful_latencies_def)
next
  case (Cons u ups)
  obtain m ok rt d where u: "u = (m, ok, rt, d)" by (cases u) auto
  let ?st = "updateStats st m ok rt d"
  let ?ls = "if m = n \<and> ok then [rt] else []"
  have step: "record_attempts st (u # ups) = record_attempts ?st ups"
    by (simp add: record_attempts_def u)
  have rec: "averageResponseTime (heap ?st ! a)
               = incremental_mean_from (averageResponseTime (heap st ! a))
                   (successfulRequests (heap st ! a)) ?ls
           \<and> successfulRequests (heap ?st ! a) = successfulRequests (heap st ! a) + length ?ls"
  proof (cases "m = n")
    case True
    with Cons.prems(1,2) have "heap ?st ! a = update_record (heap st ! a) ok rt d"
      by (simp add: updateStats_heap_same)
    with update_record_incremental [of "heap st ! a" ok rt d] True show ?thesis by simp
  next
    case False
    with Cons.prems(3) have "heap ?st ! a = heap st ! a"
      by (simp add: updateStats_heap_other)
    with False show ?thesis by simp
  qed
  have ih: "stats (record_attempts ?st ups) = stats ?st
       \<and> length (heap (record_attempts ?st ups)) = length (heap ?st)
       \<and> averageResponseTime (heap (record_attempts ?st ups) ! a)
           = incremental_mean_from (averageResponseTime (heap ?st ! a))
               (successfulRequests (heap ?st ! a)) (successful_latencies n ups)
       \<and> successfulRequests (heap (record_attempts ?st ups) ! a)
           = successfulRequests (heap ?st ! a) + length (successful_latencies n ups)"
    using Cons.prems by (intro Cons.IH) simp_all
  have ls: "successful_latencies n (u # ups) = ?ls @ successful_latencies n ups"
    by (simp add: successful_latencies_def u)
  show ?case
    using ih rec by (simp add: step ls incremental_mean_from_append)
qed

lemma record_attempts_fresh:
  assumes "stats st n = Some a" and "deref (heap st) a = Some fresh_stats"
    and "\<forall>m. m \<noteq> n \<longrightarrow> stats st m \<noteq> Some a"
  shows "stats (record_attempts st ups) n = Some a
       \<and> a < length (heap (record_attempts st ups))
       \<and> averageResponseTime (heap (record_attempts st ups) ! a)
           = incremental_mean (successful_latencies n ups)"
proof -
  from assms(2) have a: "a < length (heap st)" and f: "heap st ! a = fresh_stats"
    by (auto simp: deref_def split: if_splits)
  from record_attempts_incremental [OF assms(1) a assms(3), of ups] assms(1) a
  show ?thesis by (simp add: f fresh_stats_def incremental_mean_def)
qed

text \<open>
  C7 (amended). From a fresh record of a registered provider, after any sequence of
  statistics updates (of this and of other providers), \<open>averageResponseTime\<close> is the
  incremental mean of the latencies of this provider's successful updates, each step
  \<open>(oldAvg * (successfulCount - 1) + elapsedMs) / successfulCount\<close> taken on doubles.
  It is the arithmetic mean when no step rounds, and a failed update leaves it as it
  is.
\<close>

theorem averageResponseTime_incremental:
  assumes "stats st n = Some a" and "deref (heap st) a = Some fresh_stats"
    and "\<forall>m. m \<noteq> n \<longrightarrow> stats st m \<noteq> Some a"
  shows "\<exists>s. stats_view (record_attempts st ups) n = Some s
     \<and> averageResponseTime s = incremental_mean (successful_latencies n ups)
     \<and> (exact_steps (successful_latencies n ups) \<longrightarrow>
          averageResponseTime s = Num (mean (successful_latencies n ups)))
     \<and> (\<forall>rt d. \<exists>s'. stats_view (updateStats (record_attempts st ups) n False rt d) n = Some s'
            \<and> averageResponseTime s' = averageResponseTime s)"
proof -
  let ?st = "record_attempts st ups"
  from record_attempts_fresh [OF assms, of ups]
  have sa: "stats ?st n = Some a" and la: "a < length (heap ?st)"
    and avg: "averageResponseTime (heap ?st ! a) = incremental_mean (successful_latencies n ups)"
    by simp_all
  have view: "stats_view ?st n = Some (heap ?st ! a)"
    using sa la by (simp add: stats_view_def deref_def)
  have upd: "stats_view (updateStats ?st n False rt d) n
               = Some (update_record (heap ?st ! a) False rt d)" for rt d
    using sa la by (simp add: stats_view_def deref_def updateStats_heap_same)
  have exact: "incremental_mean (successful_latencies n ups)
                 = Num (mean (successful_latencies n ups))"
    if "exact_steps (successful_latencies n ups)"
    using that exact_steps_from_mean [of "[]" "successful_latencies n ups"]
    by (simp add: exact_steps_def incremental_mean_def mean_def)
  show ?thesis
    using view avg upd exact update_record_failure_avg by simp
qed

lemma createProvider_openai:
  "createProvider openai = Inr \<lparr>provider_class = OpenAIProvider, provider_config = openai\<rparr>"
  by (simp add: createProvider_def openai_def toLowerCase_def class_of_name_def)

lemma new_single_balancer: "new_LLMLoadBalancer single_config = Inr single_balancer"
  by (simp add: new_LLMLoadBalancer_def single_config_def createProvider_openai single_balancer_def)
     (simp add: openai_def)

lemma single_balancer_entry:
  "stats single_balancer ''openai'' = Some 0
   \<and> deref (heap single_balancer) 0 = Some fresh_stats
   \<and> (\<forall>m. m \<noteq> ''openai'' \<longrightarrow> stats single_balancer m \<noteq> Some 0)"
  by (simp add: single_balancer_def deref_def)

theorem averageResponseTime_incremental_witness:
  "stats single_balancer ''openai'' = Some 0
   \<and> deref (heap single_balancer) 0 = Some fresh_stats
   \<and> \<not> (\<exists>m. m \<noteq> ''openai'' \<and> stats single_balancer m = Some 0)
   \<and> exact_steps (successful_latencies ''openai'' sample_updates)
   \<and> (\<exists>s. stats_view (record_attempts single_balancer sample_updates) ''openai'' = Some s
          \<and> averageResponseTime s = Num 150)"
proof -
  note e = single_balancer_entry
  have l: "successful_latencies ''openai'' sample_updates = [100, 200]"
    by (simp add: successful_latencies_def sample_updates_def)
  have x: "exact_steps (successful_latencies ''openai'' sample_updates)"
    unfolding l exact_steps_def by (simp add: number_defs)
  have "mean (successful_latencies ''openai'' sample_updates) = 150"
    unfolding l by (simp add: mean_def)
  with averageResponseTime_incremental [of single_balancer "''openai''" 0 sample_updates] e x
  show ?thesis by auto
qed

text \<open>
  C7 as stated fails on doubles: the eight successful latencies 9, 9, 9, 9, 9, 9, 7, 3
  have the mean 8, and the record holds \<open>(2\<^sup>5\<^sup>3 - 1) / 2\<^sup>5\<^sup>0\<close>, the double just below 8.
\<close>

lemma incremental_mean_rounding:
  "incremental_mean rounding_latencies = Num (9007199254740991 / 1125899906842624)"
  unfolding incremental_mean_def rounding_latencies_def
  by (simp only: incremental_mean_from.simps Let_def) (simp add: number_defs)

theorem incremental_mean_is_not_the_mean:
  "map_option averageResponseTime
       (stats_view (record_attempts single_balancer rounding_updates) ''openai'')
     = Some (Num (9007199254740991 / 1125899906842624))
   \<and> mean (successful_latencies ''openai'' rounding_updates) = 8
   \<and> Num (9007199254740991 / 1125899906842624) \<noteq> Num 8"
proof -
  have l: "successful_latencies ''openai'' rounding_updates = rounding_latencies"
    by (simp add: successful_latencies_def rounding_updates_def rounding_latencies_def)
  from single_balancer_entry
  have "stats single_balancer ''openai'' = Some 0"
    and "deref (heap single_balancer) 0 = Some fresh_stats"
    and "\<forall>m. m \<noteq> ''openai'' \<longrightarrow> stats single_balancer m \<noteq> Some 0"
    by simp_all
  from record_attempts_fresh [OF this, of rounding_updates]
  have "map_option averageResponseTime
       (stats_view (record_attempts single_balancer rounding_updates) ''openai'')
     = Some (incremental_mean rounding_latencies)"
    by (simp add: stats_view_def deref_def l)
  moreover have "mean rounding_latencies = 8"
    by (simp add: mean_def rounding_latencies_def)
  ultimately show ?thesis by (simp add: incremental_mean_rounding l)
qed

section \<open>Invariants\<close>

lemma heap_update_all:
  "\<forall>s\<in>set h. P s \<Longrightarrow> P v \<Longrightarrow> \<forall>s\<in>set (h[a := v]). P s"
  using set_update_subset_insert [of h a v] by auto

lemma updateStats_cases:
  "updateStats st n ok rt d = st
   \<or> (\<exists>a. stats st n = Some a \<and> a < length (heap st)
          \<and> updateStats st n ok rt d
              = st\<lparr>heap := (heap st)[a := update_record (heap st ! a) ok rt d]\<rparr>)"
  by (auto simp: updateStats_def get_property_def deref_def split: option.splits)

lemma updateStats_providers [simp]: "providers (updateStats st n ok rt d) = providers st"
  by (simp add: updateStats_def split: property.splits option.splits)

lemma updateStats_config [simp]: "config (updateStats st n ok rt d) = config st"
  by (simp add: updateStats_def split: property.splits option.splits)

lemma update_record_counts:
  "totalRequests s = successfulRequests s + failedRequests s \<Longrightarrow>
     totalRequests (update_record s ok rt d)
       = successfulRequests (update_record s ok rt d) + failedRequests (update_record s ok rt d)"
  by (simp add: update_record_def Let_def)

lemma update_record_health: "health_rule (update_record s ok rt d)"
  by (simp add: health_rule_def update_record_def Let_def)

lemma stats_view_strategy [simp]: "stats_view (st\<lparr>strategy := g\<rparr>) = stats_view st"
  by (rule ext) (simp add: stats_view_def split: option.splits)

lemma stats_view_Some:
  "stats_view st n = Some s \<longleftrightarrow> (\<exists>a. stats st n = Some a \<and> a < length (heap st) \<and> s = heap st ! a)"
  by (auto simp: stats_view_def deref_def split: option.splits)

lemma updateStats_heap_all:
  assumes "\<And>s ok rt d. P s \<Longrightarrow> P (update_record s ok rt d)" and "\<forall>s\<in>set (heap st). P s"
  shows "\<forall>s\<in>set (heap (updateStats st n ok rt d)). P s"
  using updateStats_cases [of st n ok rt d]
proof
  assume "updateStats st n ok rt d = st"
  with assms(2) show ?thesis by simp
next
  assume "\<exists>a. stats st n = Some a \<and> a < length (heap st)
          \<and> updateStats st n ok rt d
              = st\<lparr>heap := (heap st)[a := update_record (heap st ! a) ok rt d]\<rparr>"
  then obtain a where a: "a < length (heap st)"
    and u: "updateStats st n ok rt d
              = st\<lparr>heap := (heap st)[a := update_record (heap st ! a) ok rt d]\<rparr>"
    by blast
  from a assms(2) have "P (heap st ! a)" by simp
  then have "P (update_record (heap st ! a) ok rt d)" by (rule assms(1))
  with assms(2) have "\<forall>s\<in>set ((heap st)[a := update_record (heap st ! a) ok rt d]). P s"
    by (rule heap_update_all)
  then show ?thesis by (simp add: u)
qed

lemma updateStats_rule:
  assumes "stats_view (updateStats st m ok rt d) n = Some s'"
  shows "health_rule s' \<or> stats_view st n = Some s'"
  using updateStats_cases [of st m ok rt d]
proof
  assume "updateStats st m ok rt d = st"
  with assms show ?thesis by simp
next
  assume "\<exists>a. stats st m = Some a \<and> a < length (heap st)
          \<and> updateStats st m ok rt d
              = st\<lparr>heap := (heap st)[a := update_record (heap st ! a) ok rt d]\<rparr>"
  then obtain a where a: "a < length (heap st)"
    and u: "updateStats st m ok rt d
              = st\<lparr>heap := (heap st)[a := update_record (heap st ! a) ok rt d]\<rparr>"
    by blast
  from assms obtain b where b: "stats st n = Some b" "b < length (heap st)"
    and s': "s' = (heap st)[a := update_record (heap st ! a) ok rt d] ! b"
    by (auto simp: stats_view_Some u)
  show ?thesis
  proof (cases "b = a")
    case True
    with a s' show ?thesis by (simp add: update_record_health)
  next
    case False
    with b s' show ?thesis by (auto simp: stats_view_Some)
  qed
qed

subsection \<open>Attempts and requests\<close>

lemma updated_trans: "updated st2 st3 \<Longrightarrow> updated st1 st2 \<Longrightarrow> updated st1 st3"
  by (induction rule: updated.induct) (auto intro: updated.intros)

lemma try_block_updated: "updated st (snd (try_block st w req i))"
  by (auto simp: try_block_def Let_def intro: updated.intros
      split: prod.splits sum.splits option.splits)

lemma attempt_body_updated: "updated st (snd (attempt_body st w req i))"
proof -
  obtain r st' where t: "try_block st w req i = (r, st')" by (cases "try_block st w req i")
  with try_block_updated [of st w req i] have "updated st st'" by simp
  with t show ?thesis
    by (auto simp: attempt_body_def Let_def intro: updated.intros split: sum.splits)
qed

lemma request_loop_updated:
  "updated st (fst (snd (request_loop st w req k rd a errs ds)))"
proof (induction st w req k rd a errs ds rule: request_loop.induct)
  case (1 st w req k rd a errs ds)
  show ?case
  proof (cases "int a < k")
    case False
    then show ?thesis
      by (simp add: request_loop.simps [of st w req k rd a errs ds] updated_refl)
  next
    case True
    obtain r st' where b: "attempt_body st w req a = (r, st')" by (cases "attempt_body st w req a")
    from attempt_body_updated [of st w req a] b have u: "updated st st'" by simp
    show ?thesis
    proof (cases r)
      case (Inr resp)
      with True b u show ?thesis by (simp add: request_loop.simps [of st w req k rd a errs ds])
    next
      case (Inl e)
      from "1.IH" [OF True b [symmetric] Inl] u
      have "updated st (fst (snd (request_loop st' w req k rd (Suc a) (errs @ [e])
              (if int a < k - 1 then ds @ [rd * 2 ^ a] else ds))))"
        by (rule updated_trans)
      with True b Inl show ?thesis by (simp add: request_loop.simps [of st w req k rd a errs ds])
    qed
  qed
qed

lemma request_updated: "updated st (fst (snd (request st w req)))"
  by (simp add: request_def request_loop_updated)

lemma updated_frame:
  "updated st st' \<Longrightarrow>
     providers st' = providers st \<and> config st' = config st \<and> stats st' = stats st
     \<and> length (heap st') = length (heap st)"
  by (induction rule: updated.induct) simp_all

lemma updated_heap_all:
  assumes "\<And>s ok rt d. P s \<Longrightarrow> P (update_record s ok rt d)"
  shows "updated st st' \<Longrightarrow> \<forall>s\<in>set (heap st). P s \<Longrightarrow> \<forall>s\<in>set (heap st'). P s"
proof (induction rule: updated.induct)
  case (updated_refl st)
  then show ?case by simp
next
  case (updated_strategy st st' g)
  then show ?case by simp
next
  case (updated_stats st st' n ok rt d)
  then have "\<forall>s\<in>set (heap st'). P s" by simp
  with assms show ?case by (rule updateStats_heap_all)
qed

lemma updated_rule:
  "updated st st' \<Longrightarrow> stats_view st' n = Some s' \<Longrightarrow>
     health_rule s' \<or> stats_view st n = Some s'"
proof (induction arbitrary: s' rule: updated.induct)
  case (updated_refl st)
  then show ?case by simp
next
  case (updated_strategy st st' g)
  then show ?case by simp
next
  case (updated_stats st st' m ok rt d)
  from updateStats_rule [OF updated_stats.prems]
  show ?case using updated_stats.IH by blast
qed

lemma request_loop_frame:
  "providers (fst (snd (request_loop st w req k rd a errs ds))) = providers st
   \<and> config (fst (snd (request_loop st w req k rd a errs ds))) = config st
   \<and> stats (fst (snd (request_loop st w req k rd a errs ds))) = stats st"
  using updated_frame [OF request_loop_updated [of st w req k rd a errs ds]] by simp

subsection \<open>Health sweeps\<close>

lemma probe_settled_snd:
  "snd (probe_settled pc r (hs, st))
     = (case stats st (name pc) of
          None \<Rightarrow> st
        | Some a \<Rightarrow>
            if a < length (heap st)
            then st\<lparr>heap := (heap st)[a := (heap st ! a)\<lparr>isHealthy := (\<exists>resp. r = Inr resp)\<rparr>]\<rparr>
            else st)"
  by (cases r)
     (auto simp: probe_settled_def set_isHealthy_def get_property_def deref_def
        split: option.splits)

lemma finish_probes_step:
  "\<exists>hs'. finish_probes st0 w (i # rest) (hs, st)
     = finish_probes st0 w rest
         (hs', case probe_result st0 w i of
                 None \<Rightarrow> st
               | Some r \<Rightarrow> snd (probe_settled (cfg_providers (config st0) ! i) r (hs, st)))"
  by (cases "probe_result st0 w i";
      cases "probe_settled (cfg_providers (config st0) ! i) (the (probe_result st0 w i)) (hs, st)")
     auto

lemma probe_step_frame:
  "providers (case x of None \<Rightarrow> st | Some r \<Rightarrow> snd (probe_settled pc r (hs, st))) = providers st
   \<and> config (case x of None \<Rightarrow> st | Some r \<Rightarrow> snd (probe_settled pc r (hs, st))) = config st
   \<and> stats (case x of None \<Rightarrow> st | Some r \<Rightarrow> snd (probe_settled pc r (hs, st))) = stats st
   \<and> strategy (case x of None \<Rightarrow> st | Some r \<Rightarrow> snd (probe_settled pc r (hs, st))) = strategy st
   \<and> length (heap (case x of None \<Rightarrow> st | Some r \<Rightarrow> snd (probe_settled pc r (hs, st))))
       = length (heap st)"
  by (simp add: probe_settled_snd split: option.splits)

lemma probe_step_heap_all:
  assumes "\<And>s b. P s \<Longrightarrow> P (s\<lparr>isHealthy := b\<rparr>)" and "\<forall>s\<in>set (heap st). P s"
  shows "\<forall>s\<in>set (heap (case x of None \<Rightarrow> st | Some r \<Rightarrow> snd (probe_settled pc r (hs, st)))). P s"
proof -
  have "\<forall>s\<in>set ((heap st)[a := (heap st ! a)\<lparr>isHealthy := b\<rparr>]). P s"
    if "a < length (heap st)" for a b
  proof -
    from that assms(2) have "P (heap st ! a)" by simp
    then have "P ((heap st ! a)\<lparr>isHealthy := b\<rparr>)" by (rule assms(1))
    with assms(2) show ?thesis by (rule heap_update_all)
  qed
  with assms(2) show ?thesis
    by (simp add: probe_settled_snd split: option.splits)
qed

lemma finish_probes_frame:
  "providers (snd (finish_probes st0 w js (hs, st))) = providers st
   \<and> config (snd (finish_probes st0 w js (hs, st))) = config st
   \<and> stats (snd (finish_probes st0 w js (hs, st))) = stats st
   \<and> strategy (snd (finish_probes st0 w js (hs, st))) = strategy st
   \<and> length (heap (snd (finish_probes st0 w js (hs, st)))) = length (heap st)"
proof (induction js arbitrary: hs st)
  case Nil
  show ?case by simp
next
  case (Cons i rest)
  from finish_probes_step [of st0 w i rest hs st] obtain hs' where
    "finish_probes st0 w (i # rest) (hs, st)
       = finish_probes st0 w rest
           (hs', case probe_result st0 w i of
                   None \<Rightarrow> st
                 | Some r \<Rightarrow> snd (probe_settled (cfg_providers (config st0) ! i) r (hs, st)))" ..
  then show ?case
    by (simp only: Cons.IH probe_step_frame)
qed

lemma finish_probes_heap_all:
  assumes "\<And>s b. P s \<Longrightarrow> P (s\<lparr>isHealthy := b\<rparr>)"
  shows "\<forall>s\<in>set (heap st). P s \<Longrightarrow> \<forall>s\<in>set (heap (snd (finish_probes st0 w js (hs, st)))). P s"
proof (induction js arbitrary: hs st)
  case Nil
  then show ?case by simp
next
  case (Cons i rest)
  from finish_probes_step [of st0 w i rest hs st] obtain hs' where
    f: "finish_probes st0 w (i # rest) (hs, st)
       = finish_probes st0 w rest
           (hs', case probe_result st0 w i of
                   None \<Rightarrow> st
                 | Some r \<Rightarrow> snd (probe_settled (cfg_providers (config st0) ! i) r (hs, st)))" ..
  from assms Cons.prems
  have "\<forall>s\<in>set (heap (case probe_result st0 w i of
                   None \<Rightarrow> st
                 | Some r \<Rightarrow> snd (probe_settled (cfg_providers (config st0) ! i) r (hs, st)))). P s"
    by (rule probe_step_heap_all)
  from Cons.IH [OF this] show ?case by (simp only: f)
qed

lemma healthCheck_frame:
  "providers (snd (healthCheck st w)) = providers st
   \<and> config (snd (healthCheck st w)) = config st
   \<and> stats (snd (healthCheck st w)) = stats st
   \<and> strategy (snd (healthCheck st w)) = strategy st
   \<and> length (heap (snd (healthCheck st w))) = length (heap st)"
  by (simp only: healthCheck_def finish_probes_frame)

lemma healthCheck_heap_all:
  assumes "\<And>s b. P s \<Longrightarrow> P (s\<lparr>isHealthy := b\<rparr>)" and "\<forall>s\<in>set (heap st). P s"
  shows "\<forall>s\<in>set (heap (snd (healthCheck st w))). P s"
  unfolding healthCheck_def using assms by (rule finish_probes_heap_all)

text \<open>
  The record at address \<open>a\<close>, which belongs to the name \<open>n\<close> alone, after the probes of
  the positions \<open>js\<close> have finished: the last of them that concerns \<open>n\<close> decides.
\<close>

lemma finish_probes_cell:
  assumes "stats st n = Some a" and "a < length (heap st)"
    and "\<forall>m. m \<noteq> n \<longrightarrow> stats st m \<noteq> Some a"
  shows "heap (snd (finish_probes st0 w js (hs, st))) ! a
       = (let ps = filter (\<lambda>i. name (cfg_providers (config st0) ! i) = n
                            \<and> probe_result st0 w i \<noteq> None) js
          in if ps = [] then heap st ! a
             else (heap st ! a)\<lparr>isHealthy :=
                    (\<exists>resp. probe_result st0 w (last ps) = Some (Inr resp))\<rparr>)"
  using assms
proof (induction js arbitrary: hs st)
  case Nil
  show ?case by simp
next
  case (Cons i rest)
  let ?pc = "cfg_providers (config st0) ! i"
  let ?st = "case probe_result st0 w i of
               None \<Rightarrow> st | Some r \<Rightarrow> snd (probe_settled ?pc r (hs, st))"
  let ?P = "\<lambda>i. name (cfg_providers (config st0) ! i) = n \<and> probe_result st0 w i \<noteq> None"
  from finish_probes_step [of st0 w i rest hs st] obtain hs' where
    f: "finish_probes st0 w (i # rest) (hs, st) = finish_probes st0 w rest (hs', ?st)" ..
  from probe_step_frame [where x = "probe_result st0 w i" and st = st and pc = ?pc and hs = hs]
  have fr: "stats ?st = stats st" "length (heap ?st) = length (heap st)" by simp_all
  have ih: "heap (snd (finish_probes st0 w rest (hs', ?st))) ! a
       = (let ps = filter ?P rest
          in if ps = [] then heap ?st ! a
             else (heap ?st ! a)\<lparr>isHealthy :=
                    (\<exists>resp. probe_result st0 w (last ps) = Some (Inr resp))\<rparr>)"
    using Cons.prems by (intro Cons.IH) (simp_all only: fr)
  have cell: "heap ?st ! a
       = (if ?P i
          then (heap st ! a)\<lparr>isHealthy := (\<exists>resp. probe_result st0 w i = Some (Inr resp))\<rparr>
          else heap st ! a)"
  proof (cases "probe_result st0 w i")
    case None
    then show ?thesis by simp
  next
    case (Some r)
    show ?thesis
    proof (cases "name ?pc = n")
      case True
      with Some Cons.prems(1,2) show ?thesis by (simp add: probe_settled_snd)
    next
      case False
      with Cons.prems(3) have "stats st (name ?pc) \<noteq> Some a" by blast
      with Some False show ?thesis
        by (auto simp: probe_settled_snd split: option.splits)
    qed
  qed
  show ?case
    unfolding f ih cell by (auto simp: Let_def)
qed

lemma settle_order_adapter:
  "i \<in> set (settle_order st w) \<Longrightarrow> probe_result st w i \<noteq> None"
  by (auto simp: settle_order_def probe_result_def Let_def split: option.splits)

lemma probes_of_filter:
  "filter (\<lambda>i. name (cfg_providers (config st) ! i) = n \<and> probe_result st w i \<noteq> None)
     (settle_order st w) = probes_of st w n"
  unfolding probes_of_def
  by (rule filter_cong) (auto dest: settle_order_adapter)

lemma healthCheck_record:
  assumes "own_records st" and "stats_view st n = Some s"
  shows "stats_view (snd (healthCheck st w)) n
       = Some (if probes_of st w n = [] then s
               else s\<lparr>isHealthy :=
                      (\<exists>resp. probe_result st w (last (probes_of st w n)) = Some (Inr resp))\<rparr>)"
proof -
  from assms(2) obtain a where a: "stats st n = Some a" "a < length (heap st)"
    and s: "s = heap st ! a"
    by (auto simp: stats_view_Some)
  from assms(1) a(1) have o: "\<forall>m. m \<noteq> n \<longrightarrow> stats st m \<noteq> Some a"
    unfolding own_records_def by blast
  from healthCheck_frame [of st w] a
  have "stats_view (snd (healthCheck st w)) n = Some (heap (snd (healthCheck st w)) ! a)"
    by (simp add: stats_view_def deref_def)
  also have "heap (snd (healthCheck st w)) ! a
       = (if probes_of st w n = [] then s
          else s\<lparr>isHealthy :=
                 (\<exists>resp. probe_result st w (last (probes_of st w n)) = Some (Inr resp))\<rparr>)"
    unfolding healthCheck_def
    by (simp only: finish_probes_cell [OF a o] probes_of_filter Let_def s)
  finally show ?thesis .
qed

subsection \<open>Adding and removing providers\<close>

lemma rebuild_strategy_frame:
  "providers (snd (rebuild_strategy st)) = providers st
   \<and> config (snd (rebuild_strategy st)) = config st
   \<and> stats (snd (rebuild_strategy st)) = stats st
   \<and> heap (snd (rebuild_strategy st)) = heap st"
  by (simp add: rebuild_strategy_def split: sum.splits)

lemma stats_view_rebuild [simp]: "stats_view (snd (rebuild_strategy st)) = stats_view st"
  by (simp add: rebuild_strategy_def split: sum.splits)

lemma createStrategy_ok:
  "(k = CustomKind \<longrightarrow> cs \<noteq> None) \<Longrightarrow> \<exists>s. createStrategy k ps cs = Inr s"
  by (cases k) auto

lemma rebuild_strategy_ok:
  "cfg_strategy (config st) = CustomKind \<longrightarrow> customStrategy (config st) \<noteq> None \<Longrightarrow>
     fst (rebuild_strategy st) = None"
  using createStrategy_ok [of "cfg_strategy (config st)" "customStrategy (config st)"
      "cfg_providers (config st)"]
  by (auto simp: rebuild_strategy_def)

lemma createProvider_Inr:
  "createProvider cfg = Inr ad \<Longrightarrow> class_of_name (toLowerCase (name cfg)) \<noteq> None"
  by (auto simp: createProvider_def split: option.splits)

lemma addProvider_rule:
  assumes "stats_view (snd (addProvider st cfg)) n = Some s'"
  shows "health_rule s' \<or> stats_view st n = Some s'"
proof (cases "createProvider cfg")
  case (Inl e)
  with assms show ?thesis by (simp add: addProvider_def)
next
  case (Inr ad)
  let ?st = "st\<lparr>providers := (providers st)(name cfg \<mapsto> ad),
                config := (config st)\<lparr>cfg_providers := cfg_providers (config st) @ [cfg]\<rparr>,
                stats := (stats st)(name cfg \<mapsto> length (heap st)),
                heap := heap st @ [fresh_stats]\<rparr>"
  from assms Inr have "stats_view ?st n = Some s'"
    by (simp add: addProvider_def)
  then show ?thesis
    by (auto simp: stats_view_def deref_def nth_append health_rule_def fresh_stats_def
        split: option.splits if_splits)
qed

lemma removeProvider_rule:
  assumes "stats_view (snd (removeProvider st m)) n = Some s'"
  shows "stats_view st n = Some s'"
proof -
  let ?st = "st\<lparr>providers := (providers st)(m := None),
                config := (config st)\<lparr>cfg_providers :=
                             filter (\<lambda>p. name p \<noteq> m) (cfg_providers (config st))\<rparr>,
                stats := (stats st)(m := None)\<rparr>"
  from assms have "stats_view ?st n = Some s'"
    by (simp add: removeProvider_def)
  then show ?thesis
    by (auto simp: stats_view_def split: option.splits if_splits)
qed

lemma own_records_frame:
  "stats st' = stats st \<Longrightarrow> length (heap st') = length (heap st) \<Longrightarrow>
     own_records st' = own_records st"
  by (simp add: own_records_def)

lemma addProvider_own: "own_records st \<Longrightarrow> own_records (snd (addProvider st cfg))"
proof (cases "createProvider cfg")
  case (Inl e)
  assume "own_records st"
  with Inl show ?thesis by (simp add: addProvider_def)
next
  case (Inr ad)
  let ?st = "st\<lparr>providers := (providers st)(name cfg \<mapsto> ad),
                config := (config st)\<lparr>cfg_providers := cfg_providers (config st) @ [cfg]\<rparr>,
                stats := (stats st)(name cfg \<mapsto> length (heap st)),
                heap := heap st @ [fresh_stats]\<rparr>"
  assume "own_records st"
  then have "own_records ?st"
    unfolding own_records_def by (simp add: less_Suc_eq) (metis less_irrefl)
  moreover have "own_records (snd (rebuild_strategy ?st)) = own_records ?st"
    by (rule own_records_frame) (simp_all only: rebuild_strategy_frame)
  ultimately show ?thesis using Inr by (simp add: addProvider_def)
qed

lemma removeProvider_own: "own_records st \<Longrightarrow> own_records (snd (removeProvider st m))"
proof -
  let ?st = "st\<lparr>providers := (providers st)(m := None),
                config := (config st)\<lparr>cfg_providers :=
                             filter (\<lambda>p. name p \<noteq> m) (cfg_providers (config st))\<rparr>,
                stats := (stats st)(m := None)\<rparr>"
  assume "own_records st"
  then have "own_records ?st"
    unfolding own_records_def by simp
  moreover have "own_records (snd (rebuild_strategy ?st)) = own_records ?st"
    by (rule own_records_frame) (simp_all only: rebuild_strategy_frame)
  ultimately show ?thesis by (simp add: removeProvider_def)
qed

subsection \<open>Runs\<close>

lemma run_Cons: "run st (op # ops) = run (apply_op st op) ops"
  by (simp add: run_def)

lemma apply_op_heap_all:
  assumes upd: "\<And>s ok rt d. P s \<Longrightarrow> P (update_record s ok rt d)" and fresh: "P fresh_stats"
    and hc: "\<And>s b. P s \<Longrightarrow> P (s\<lparr>isHealthy := b\<rparr>)"
    and h: "\<forall>s\<in>set (heap st). P s"
  shows "\<forall>s\<in>set (heap (apply_op st op)). P s"
proof (cases op)
  case (Request w req)
  then show ?thesis using updated_heap_all [of P, OF upd request_updated h] by simp
next
  case (HealthCheck w)
  then show ?thesis using healthCheck_heap_all [of P, OF hc h] by simp
next
  case (AddProvider cfg)
  then show ?thesis using h fresh
    by (auto simp: addProvider_def rebuild_strategy_frame split: sum.splits)
next
  case (RemoveProvider n)
  then show ?thesis using h by (simp add: removeProvider_def rebuild_strategy_frame)
next
  case (RecordAttempt n ok rt d)
  then show ?thesis using updateStats_heap_all [of P, OF upd h] by simp
qed

lemma run_heap_all:
  assumes upd: "\<And>s ok rt d. P s \<Longrightarrow> P (update_record s ok rt d)" and fresh: "P fresh_stats"
    and hc: "\<And>s b. P s \<Longrightarrow> P (s\<lparr>isHealthy := b\<rparr>)"
  shows "\<forall>s\<in>set (heap st). P s \<Longrightarrow> \<forall>s\<in>set (heap (run st ops)). P s"
proof (induction ops arbitrary: st)
  case Nil
  then show ?case by (simp add: run_def)
next
  case (Cons op ops)
  have "\<forall>s\<in>set (heap (apply_op st op)). P s"
    using upd fresh hc Cons.prems by (rule apply_op_heap_all)
  then have "\<forall>s\<in>set (heap (run (apply_op st op) ops)). P s"
    by (rule Cons.IH)
  then show ?case by (simp only: run_Cons)
qed

lemma apply_op_rule:
  assumes "\<not> is_HealthCheck op" and "stats_view (apply_op st op) n = Some s'"
  shows "health_rule s' \<or> stats_view st n = Some s'"
proof (cases op)
  case (Request w req)
  with assms(2) show ?thesis using updated_rule [OF request_updated, of st w req n s'] by simp
next
  case (HealthCheck w)
  with assms(1) show ?thesis by simp
next
  case (AddProvider cfg)
  with assms(2) show ?thesis using addProvider_rule [of st cfg n s'] by simp
next
  case (RemoveProvider m)
  with assms(2) show ?thesis using removeProvider_rule [of st m n s'] by simp
next
  case (RecordAttempt m ok rt d)
  with assms(2) show ?thesis using updateStats_rule [of st m ok rt d n s'] by simp
qed

lemma run_rule:
  "\<not> list_ex is_HealthCheck ops \<Longrightarrow> stats_view (run st ops) n = Some s' \<Longrightarrow>
     health_rule s' \<or> stats_view st n = Some s'"
proof (induction ops arbitrary: st)
  case Nil
  then show ?case by (simp add: run_def)
next
  case (Cons op ops)
  from Cons.prems have no: "\<not> is_HealthCheck op" "\<not> list_ex is_HealthCheck ops"
    and v: "stats_view (run (apply_op st op) ops) n = Some s'"
    by (simp_all add: run_Cons)
  from Cons.IH [OF no(2) v] show ?case
  proof
    assume "health_rule s'"
    then show ?thesis ..
  next
    assume "stats_view (apply_op st op) n = Some s'"
    with no(1) show ?thesis by (rule apply_op_rule)
  qed
qed

lemma apply_op_own: "own_records st \<Longrightarrow> own_records (apply_op st op)"
proof (cases op)
  case (Request w req)
  have "own_records (fst (snd (request st w req))) = own_records st"
    using updated_frame [OF request_updated, of st w req] by (intro own_records_frame) simp_all
  moreover assume "own_records st"
  ultimately show ?thesis using Request by simp
next
  case (HealthCheck w)
  have "own_records (snd (healthCheck st w)) = own_records st"
    using healthCheck_frame [of st w] by (intro own_records_frame) simp_all
  moreover assume "own_records st"
  ultimately show ?thesis using HealthCheck by simp
next
  case (AddProvider cfg)
  assume "own_records st"
  with AddProvider show ?thesis by (simp add: addProvider_own)
next
  case (RemoveProvider m)
  assume "own_records st"
  with RemoveProvider show ?thesis by (simp add: removeProvider_own)
next
  case (RecordAttempt m ok rt d)
  have "own_records (updateStats st m ok rt d) = own_records st"
    by (rule own_records_frame) simp_all
  moreover assume "own_records st"
  ultimately show ?thesis using RecordAttempt by simp
qed

lemma run_own: "own_records st \<Longrightarrow> own_records (run st ops)"
proof (induction ops arbitrary: st)
  case Nil
  then show ?case by (simp add: run_def)
next
  case (Cons op ops)
  from Cons.prems have "own_records (apply_op st op)" by (rule apply_op_own)
  then have "own_records (run (apply_op st op) ops)" by (rule Cons.IH)
  then show ?case by (simp only: run_Cons)
qed

subsection \<open>The constructor\<close>

lemma initializeProviders_heap:
  "initializeProviders pcs (pm, sm, h) = Inr (pm', sm', h') \<Longrightarrow> set h' \<subseteq> insert fresh_stats (set h)"
proof (induction pcs arbitrary: pm sm h)
  case Nil
  then show ?case by auto
next
  case (Cons pc pcs)
  from Cons.prems obtain ad where
    "initializeProviders pcs (pm(name pc \<mapsto> ad), sm(name pc \<mapsto> length h), h @ [fresh_stats])
       = Inr (pm', sm', h')"
    by (auto split: sum.splits)
  from Cons.IH [OF this] show ?case by auto
qed

lemma initializeProviders_own:
  "initializeProviders pcs (pm, sm, h) = Inr (pm', sm', h') \<Longrightarrow>
     \<forall>n a. sm n = Some a \<longrightarrow> a < length h \<and> (\<forall>m. m \<noteq> n \<longrightarrow> sm m \<noteq> Some a) \<Longrightarrow>
     \<forall>n a. sm' n = Some a \<longrightarrow> a < length h' \<and> (\<forall>m. m \<noteq> n \<longrightarrow> sm' m \<noteq> Some a)"
proof (induction pcs arbitrary: pm sm h)
  case Nil
  then show ?case by simp
next
  case (Cons pc pcs)
  from Cons.prems(1) obtain ad where i:
    "initializeProviders pcs (pm(name pc \<mapsto> ad), sm(name pc \<mapsto> length h), h @ [fresh_stats])
       = Inr (pm', sm', h')"
    by (auto split: sum.splits)
  from Cons.prems(2)
  have "\<forall>n a. (sm(name pc \<mapsto> length h)) n = Some a \<longrightarrow>
          a < length (h @ [fresh_stats])
          \<and> (\<forall>m. m \<noteq> n \<longrightarrow> (sm(name pc \<mapsto> length h)) m \<noteq> Some a)"
    by (simp add: less_Suc_eq) (metis less_irrefl)
  with i show ?case by (rule Cons.IH)
qed

lemma new_heap:
  "new_LLMLoadBalancer cfg = Inr st \<Longrightarrow> \<forall>s\<in>set (heap st). s = fresh_stats"
proof -
  assume "new_LLMLoadBalancer cfg = Inr st"
  then obtain pm sm where "initializeProviders (cfg_providers cfg) (Map.empty, Map.empty, [])
      = Inr (pm, sm, heap st)"
    by (auto simp: new_LLMLoadBalancer_def split: sum.splits)
  from initializeProviders_heap [OF this] show ?thesis by auto
qed

lemma new_own: "new_LLMLoadBalancer cfg = Inr st \<Longrightarrow> own_records st"
proof -
  assume "new_LLMLoadBalancer cfg = Inr st"
  then obtain pm where "initializeProviders (cfg_providers cfg) (Map.empty, Map.empty, [])
      = Inr (pm, stats st, heap st)"
    by (auto simp: new_LLMLoadBalancer_def split: sum.splits)
  from initializeProviders_own [OF this] show ?thesis by (simp add: own_records_def)
qed

lemma stats_view_in_heap: "stats_view st n = Some s \<Longrightarrow> s \<in> set (heap st)"
  by (auto simp: stats_view_Some)

text \<open>
  C1 (amended). In every state reached from the constructor by \<open>request\<close>,
  \<open>healthCheck\<close>, \<open>addProvider\<close>, \<open>removeProvider\<close> and single statistics updates,
  each provider's record has \<open>totalRequests = successfulRequests + failedRequests\<close>.
  The health rule, \<open>isHealthy = (successfulRequests / totalRequests > 0.5)\<close> for
  a record with attempts and \<open>true\<close> for one without, holds when no
  \<open>healthCheck\<close> was among the operations; after any further operations other than
  \<open>healthCheck\<close> every record satisfies the rule or is the record its name had
  before them; and every statistics update of a record makes the rule hold for it.
  A \<open>healthCheck\<close> leaves the record of a name without probe as it is, and in the
  record of a probed name it overwrites \<open>isHealthy\<close>, and nothing else, with the
  outcome of the probe of that name that settles last: \<open>true\<close> when its call
  resolved, \<open>false\<close> when it was rejected or timed out.
\<close>

theorem stats_invariant:
  assumes "new_LLMLoadBalancer cfg = Inr st0" and "stats_view (run st0 ops) n = Some s"
  shows "totalRequests s = successfulRequests s + failedRequests s
       \<and> (\<not> list_ex is_HealthCheck ops \<longrightarrow> health_rule s)
       \<and> (\<forall>ops' m s'. \<not> list_ex is_HealthCheck ops'
              \<and> stats_view (run (run st0 ops) ops') m = Some s'
            \<longrightarrow> health_rule s' \<or> stats_view (run st0 ops) m = Some s')
       \<and> (\<forall>ok rt d. \<exists>s'. stats_view (updateStats (run st0 ops) n ok rt d) n = Some s'
              \<and> health_rule s')
       \<and> (\<forall>w. stats_view (snd (healthCheck (run st0 ops) w)) n
              = Some (if probes_of (run st0 ops) w n = [] then s
                      else s\<lparr>isHealthy :=
                             (\<exists>resp. probe_result (run st0 ops) w
                                       (last (probes_of (run st0 ops) w n))
                                     = Some (Inr resp))\<rparr>))"
proof -
  let ?C = "\<lambda>s. totalRequests s = successfulRequests s + failedRequests s"
  let ?st = "run st0 ops"
  from assms(2) have mem: "s \<in> set (heap ?st)" by (rule stats_view_in_heap)
  from new_heap [OF assms(1)] have init: "\<forall>s\<in>set (heap st0). s = fresh_stats" .
  have "\<forall>s\<in>set (heap ?st). ?C s"
  proof (rule run_heap_all)
    show "?C (update_record s ok rt d)" if "?C s" for s ok rt d
      using that by (rule update_record_counts)
    show "?C fresh_stats" by (simp add: fresh_stats_def)
    show "?C (s\<lparr>isHealthy := b\<rparr>)" if "?C s" for s b using that by simp
    show "\<forall>s\<in>set (heap st0). ?C s" using init by (auto simp: fresh_stats_def)
  qed
  with mem have c1: "?C s" by blast
  have c2: "health_rule s" if no: "\<not> list_ex is_HealthCheck ops"
    using run_rule [OF no assms(2)]
  proof
    assume "health_rule s"
    then show ?thesis .
  next
    assume "stats_view st0 n = Some s"
    then have "s \<in> set (heap st0)" by (rule stats_view_in_heap)
    with init show ?thesis by (auto simp: health_rule_def fresh_stats_def)
  qed
  have c3: "health_rule s' \<or> stats_view ?st m = Some s'"
    if "\<not> list_ex is_HealthCheck ops' \<and> stats_view (run ?st ops') m = Some s'" for ops' m s'
    using that run_rule [of ops' ?st m s'] by blast
  from assms(2) obtain a where a: "stats ?st n = Some a" "a < length (heap ?st)"
    by (auto simp: stats_view_Some)
  have c4: "\<exists>s'. stats_view (updateStats ?st n ok rt d) n = Some s' \<and> health_rule s'"
    for ok rt d
    using a by (simp add: stats_view_def deref_def updateStats_heap_same update_record_health)
  from new_own [OF assms(1)] have "own_records ?st" by (rule run_own)
  from healthCheck_record [OF this assms(2)] c1 c2 c3 c4 show ?thesis by blast
qed

subsection \<open>The health rule after a health sweep\<close>

lemma single_own: "own_records (single_balancer\<lparr>heap := [s]\<rparr>)"
  by (simp add: own_records_def single_balancer_def)

lemma single_view: "stats_view (single_balancer\<lparr>heap := [s]\<rparr>) ''openai'' = Some s"
  by (simp add: stats_view_def single_balancer_def deref_def)

lemma single_probes: "probes_of (single_balancer\<lparr>heap := [s]\<rparr>) w ''openai'' = [0]"
  by (simp add: probes_of_def settle_order_def single_balancer_def single_config_def openai_def)

lemma single_probe_failing:
  "probe_result (single_balancer\<lparr>heap := [s]\<rparr>) failing_world 0 = Some (Inl (LLMErr api_error))"
  by (simp add: probe_result_def single_balancer_def single_config_def openai_def
      makeRequestWithTimeout_def failing_world_def)

lemma single_probe_ok:
  "probe_result (single_balancer\<lparr>heap := [s]\<rparr>) ok_world 0 = Some (Inr ok_response)"
  by (simp add: probe_result_def single_balancer_def single_config_def openai_def
      makeRequestWithTimeout_def ok_world_def)

lemma single_balancer_heap: "single_balancer\<lparr>heap := [fresh_stats]\<rparr> = single_balancer"
  by (simp add: single_balancer_def)

text \<open>
  C1 as stated fails after a health sweep: a probe that fails on a provider without
  attempts leaves \<open>totalRequests = 0\<close> with \<open>isHealthy = false\<close>.
\<close>

theorem health_sweep_breaks_health_rule:
  "new_LLMLoadBalancer single_config = Inr single_balancer
   \<and> stats_view (run single_balancer [HealthCheck failing_world]) ''openai''
       = Some (fresh_stats\<lparr>isHealthy := False\<rparr>)
   \<and> totalRequests (fresh_stats\<lparr>isHealthy := False\<rparr>) = 0
   \<and> \<not> isHealthy (fresh_stats\<lparr>isHealthy := False\<rparr>)"
proof -
  note o = single_own [of fresh_stats, unfolded single_balancer_heap]
    and v = single_view [of fresh_stats, unfolded single_balancer_heap]
    and p = single_probes [of fresh_stats failing_world, unfolded single_balancer_heap]
    and r = single_probe_failing [of fresh_stats, unfolded single_balancer_heap]
  from healthCheck_record [OF o v, of failing_world]
  have "stats_view (snd (healthCheck single_balancer failing_world)) ''openai''
       = Some (fresh_stats\<lparr>isHealthy := False\<rparr>)"
    by (simp add: p r)
  then have "stats_view (run single_balancer [HealthCheck failing_world]) ''openai''
       = Some (fresh_stats\<lparr>isHealthy := False\<rparr>)"
    by (simp add: run_def)
  then show ?thesis by (simp add: new_single_balancer fresh_stats_def)
qed

lemma attempt_single_failing:
  "attempt_body (single_balancer\<lparr>heap := [s]\<rparr>) failing_world test_request i
     = (Inl api_error, single_balancer\<lparr>heap := [update_record s False 0 0]\<rparr>)"
proof -
  have "try_block (single_balancer\<lparr>heap := [s]\<rparr>) failing_world test_request i
          = (Inl (LLMErr api_error), single_balancer\<lparr>heap := [s]\<rparr>)"
    by (simp add: try_block_def single_balancer_def single_config_def js_index_def openai_def
        makeRequestWithTimeout_def failing_world_def)
  then show ?thesis
    by (simp add: attempt_body_def api_error_def updateStats_def get_property_def
        single_balancer_def deref_def failing_world_def)
qed

lemma failed_request_state:
  "run single_balancer [Request failing_world test_request]
     = single_balancer\<lparr>heap := [\<lparr>totalRequests = 2, successfulRequests = 0, failedRequests = 2,
               averageResponseTime = Num 0, lastRequestTime = Some 0, isHealthy = False\<rparr>]\<rparr>"
proof -
  have a: "attempt_body single_balancer failing_world test_request i
     = (Inl api_error, single_balancer\<lparr>heap := [update_record fresh_stats False 0 0]\<rparr>)" for i
    using attempt_single_failing [of fresh_stats i] by (simp add: single_balancer_heap)
  have "request single_balancer failing_world test_request
          = request_loop single_balancer failing_world test_request 2 10 0 [] []"
    by (simp add: request_def single_balancer_def single_config_def)
  then have "fst (snd (request single_balancer failing_world test_request))
          = single_balancer\<lparr>heap := [update_record (update_record fresh_stats False 0 0) False 0 0]\<rparr>"
    by (simp add: request_loop.simps a attempt_single_failing)
  moreover have "update_record (update_record fresh_stats False 0 0) False 0 0
       = \<lparr>totalRequests = 2, successfulRequests = 0, failedRequests = 2,
               averageResponseTime = Num 0, lastRequestTime = Some 0, isHealthy = False\<rparr>"
    by (simp add: update_record_def fresh_stats_def Let_def)
  ultimately show ?thesis by (simp add: run_def)
qed

lemma failed_request_stats:
  "stats_view (run single_balancer [Request failing_world test_request]) ''openai''
       = Some \<lparr>totalRequests = 2, successfulRequests = 0, failedRequests = 2,
               averageResponseTime = Num 0, lastRequestTime = Some 0, isHealthy = False\<rparr>"
  by (simp only: failed_request_state single_view)

theorem stats_invariant_witness:
  "new_LLMLoadBalancer single_config = Inr single_balancer
   \<and> stats_view (run single_balancer [Request failing_world test_request]) ''openai''
       = Some \<lparr>totalRequests = 2, successfulRequests = 0, failedRequests = 2,
               averageResponseTime = Num 0, lastRequestTime = Some 0, isHealthy = False\<rparr>
   \<and> \<not> list_ex is_HealthCheck [Request failing_world test_request]
   \<and> health_rule \<lparr>totalRequests = 2, successfulRequests = 0, failedRequests = 2,
               averageResponseTime = Num 0, lastRequestTime = Some 0, isHealthy = False\<rparr>
   \<and> \<not> list_ex is_HealthCheck [RecordAttempt ''openai'' False 0 7]
   \<and> stats_view (run (run single_balancer [Request failing_world test_request])
                    [RecordAttempt ''openai'' False 0 7]) ''openai''
       = Some \<lparr>totalRequests = 3, successfulRequests = 0, failedRequests = 3,
               averageResponseTime = Num 0, lastRequestTime = Some 7, isHealthy = False\<rparr>
   \<and> health_rule \<lparr>totalRequests = 3, successfulRequests = 0, failedRequests = 3,
               averageResponseTime = Num 0, lastRequestTime = Some 7, isHealthy = False\<rparr>
   \<and> probes_of (run single_balancer [Request failing_world test_request]) ok_world ''openai'' = [0]
   \<and> stats_view (snd (healthCheck (run single_balancer [Request failing_world test_request])
                         ok_world)) ''openai''
       = Some \<lparr>totalRequests = 2, successfulRequests = 0, failedRequests = 2,
               averageResponseTime = Num 0, lastRequestTime = Some 0, isHealthy = True\<rparr>"
proof -
  let ?r2 = "\<lparr>totalRequests = 2, successfulRequests = 0, failedRequests = 2,
               averageResponseTime = Num 0, lastRequestTime = Some 0, isHealthy = False\<rparr>"
  let ?r3 = "\<lparr>totalRequests = 3, successfulRequests = 0, failedRequests = 3,
               averageResponseTime = Num 0, lastRequestTime = Some 7, isHealthy = False\<rparr>"
  let ?st = "run single_balancer [Request failing_world test_request]"
  note inst = stats_invariant [OF new_single_balancer failed_request_stats]
  have no: "\<not> list_ex is_HealthCheck [Request failing_world test_request]"
    and no': "\<not> list_ex is_HealthCheck [RecordAttempt ''openai'' False 0 7]"
    by simp_all
  from inst no have 1: "health_rule ?r2" by blast
  have v3: "stats_view (run ?st [RecordAttempt ''openai'' False 0 7]) ''openai'' = Some ?r3"
    by (simp only: failed_request_state)
       (simp add: run_def updateStats_def get_property_def single_balancer_def stats_view_def
          deref_def update_record_def Let_def)
  from inst no' v3 have "health_rule ?r3 \<or> stats_view ?st ''openai'' = Some ?r3" by blast
  then have 2: "health_rule ?r3" by (simp add: failed_request_stats)
  have p: "probes_of ?st ok_world ''openai'' = [0]"
    by (simp only: failed_request_state single_probes)
  from inst have "stats_view (snd (healthCheck ?st ok_world)) ''openai''
      = Some (if probes_of ?st ok_world ''openai'' = [] then ?r2
              else ?r2\<lparr>isHealthy :=
                       (\<exists>resp. probe_result ?st ok_world (last (probes_of ?st ok_world ''openai''))
                                = Some (Inr resp))\<rparr>)"
    by blast
  then have 3: "stats_view (snd (healthCheck ?st ok_world)) ''openai''
      = Some (?r2\<lparr>isHealthy := True\<rparr>)"
    unfolding p by (simp add: failed_request_state single_probe_ok)
  from new_single_balancer failed_request_stats no no' 1 v3 2 p 3 show ?thesis by simp
qed

lemma string_of_int_2: "string_of_int 2 = ''2''"
  by (simp add: string_of_int_def string_of_nat.simps digit_char_def)

lemma string_of_int_3: "string_of_int 3 = ''3''"
  by (simp add: string_of_int_def string_of_nat.simps digit_char_def)

lemma string_of_int_1500: "string_of_int 1500 = ''1500''"
  by (simp add: string_of_int_def string_of_nat.simps digit_char_def)

lemma string_of_int_7000: "string_of_int 7000 = ''7000''"
  by (simp add: string_of_int_def string_of_nat.simps digit_char_def)

lemma string_of_int_30000: "string_of_int 30000 = ''30000''"
  by (simp add: string_of_int_def string_of_nat.simps digit_char_def)

section \<open>The retry loop\<close>

lemma request_loop_all_fail:
  "\<forall>i<nat k. isl (fst (attempt_body (state_before st0 w req i) w req i)) \<Longrightarrow>
   st = state_before st0 w req a \<Longrightarrow>
    request_loop st w req k rd a errs ds =
      (Inl (LoadBalancerError (''All providers failed after '' @ string_of_int k @ '' attempts'')
              (errs @ map (\<lambda>i. projl (fst (attempt_body (state_before st0 w req i) w req i)))
                        [a..<nat k])),
       state_before st0 w req (max a (nat k)),
       ds @ map (\<lambda>i. rd * 2 ^ i) [a..<nat (k - 1)])"
proof (induction st w req k rd a errs ds rule: request_loop.induct)
  case (1 st w req k rd a errs ds)
  note fail = "1.prems"(1) and st = "1.prems"(2)
  show ?case
  proof (cases "int a < k")
    case False
    then have "nat k \<le> a" and "nat (k - 1) \<le> a" by linarith+
    then show ?thesis
      unfolding request_loop.simps [of st w req k rd a errs ds]
      using False st by (simp add: max_def)
  next
    case True
    then have lt: "a < nat k" by linarith
    obtain r st' where b: "attempt_body st w req a = (r, st')" by (cases "attempt_body st w req a")
    from fail lt have "isl (fst (attempt_body (state_before st0 w req a) w req a))" by blast
    with st b have "isl r" by simp
    then obtain e where r: "r = Inl e" by (cases r) auto
    from b r st have e: "e = projl (fst (attempt_body (state_before st0 w req a) w req a))"
      and st': "st' = state_before st0 w req (Suc a)" by simp_all
    let ?ds = "if int a < k - 1 then ds @ [rd * 2 ^ a] else ds"
    have ih: "request_loop st' w req k rd (Suc a) (errs @ [e]) ?ds =
      (Inl (LoadBalancerError (''All providers failed after '' @ string_of_int k @ '' attempts'')
              ((errs @ [e]) @ map (\<lambda>i. projl (fst (attempt_body (state_before st0 w req i) w req i)))
                        [Suc a..<nat k])),
       state_before st0 w req (max (Suc a) (nat k)),
       ?ds @ map (\<lambda>i. rd * 2 ^ i) [Suc a..<nat (k - 1)])"
      using True b [symmetric] r fail st' by (rule "1.IH")
    have errs: "(errs @ [e]) @ map (\<lambda>i. projl (fst (attempt_body (state_before st0 w req i) w req i)))
                        [Suc a..<nat k]
        = errs @ map (\<lambda>i. projl (fst (attempt_body (state_before st0 w req i) w req i))) [a..<nat k]"
      using lt e by (simp add: upt_conv_Cons)
    have ds: "?ds @ map (\<lambda>i. rd * 2 ^ i) [Suc a..<nat (k - 1)]
        = ds @ map (\<lambda>i. rd * 2 ^ i) [a..<nat (k - 1)]"
    proof (cases "int a < k - 1")
      case True
      then have "a < nat (k - 1)" by linarith
      with True show ?thesis by (simp add: upt_conv_Cons)
    next
      case False
      then have "nat (k - 1) \<le> a" by linarith
      with False show ?thesis by simp
    qed
    have mx: "max (Suc a) (nat k) = max a (nat k)" using lt by simp
    show ?thesis
      using True b r ih
      by (simp only: request_loop.simps [of st w req k rd a errs ds] if_True prod.case sum.case
          errs ds mx)
  qed
qed

text \<open>
  C2. With \<open>maxRetries = k \<ge> 1\<close>, when each of the \<open>k\<close> attempts fails, \<open>request\<close>
  ends with the aggregate error whose message names \<open>k\<close> and whose list is exactly
  the errors of attempts \<open>0, \<dots>, k - 1\<close>, in that order; its length is \<open>k\<close>.
\<close>

theorem all_attempts_fail_aggregate:
  assumes "maxRetries (config st) = Some k" and "1 \<le> k"
    and "\<forall>i<nat k. isl (fst (attempt_body (state_before st w req i) w req i))"
  shows "fst (request st w req)
           = Inl (LoadBalancerError
                    (''All providers failed after '' @ string_of_int k @ '' attempts'')
                    (map (\<lambda>i. projl (fst (attempt_body (state_before st w req i) w req i)))
                       [0..<nat k]))
       \<and> (\<exists>e. fst (request st w req) = Inl e \<and> length (errors e) = nat k)"
proof -
  from assms(1,2) have k: "or_default (maxRetries (config st)) 3 = k" by simp
  have "st = state_before st w req 0" by simp
  from request_loop_all_fail [OF assms(3) this]
  show ?thesis by (simp add: request_def k)
qed

lemma state_before_single_failing:
  "\<exists>s. state_before single_balancer failing_world test_request i = single_balancer\<lparr>heap := [s]\<rparr>"
proof (induction i)
  case 0
  have "single_balancer = single_balancer\<lparr>heap := [fresh_stats]\<rparr>"
    by (simp add: single_balancer_def)
  then show ?case by auto
next
  case (Suc i)
  then obtain s where "state_before single_balancer failing_world test_request i
            = single_balancer\<lparr>heap := [s]\<rparr>" by blast
  then have "state_before single_balancer failing_world test_request (Suc i)
            = single_balancer\<lparr>heap := [update_record s False 0 0]\<rparr>"
    by (simp add: attempt_single_failing)
  then show ?case by blast
qed

lemma attempt_single_failing_isl:
  "fst (attempt_body (state_before single_balancer failing_world test_request i)
               failing_world test_request i) = Inl api_error"
proof -
  from state_before_single_failing [of i] obtain s where
    "state_before single_balancer failing_world test_request i = single_balancer\<lparr>heap := [s]\<rparr>"
    by blast
  then show ?thesis by (simp add: attempt_single_failing)
qed

theorem all_attempts_fail_aggregate_witness:
  "maxRetries (config single_balancer) = Some 2 \<and> (1::int) \<le> 2
   \<and> \<not> (\<exists>i<nat 2. \<not> isl (fst (attempt_body (state_before single_balancer failing_world
                                 test_request i) failing_world test_request i)))
   \<and> fst (request single_balancer failing_world test_request)
       = Inl (LoadBalancerError ''All providers failed after 2 attempts'' [api_error, api_error])"
proof -
  have a: "maxRetries (config single_balancer) = Some 2"
    by (simp add: single_balancer_def single_config_def)
  have b: "(1::int) \<le> 2" by simp
  have c: "\<forall>i<nat 2. isl (fst (attempt_body (state_before single_balancer failing_world
                                 test_request i) failing_world test_request i))"
    by (simp add: attempt_single_failing_isl)
  have "map (\<lambda>i. projl (fst (attempt_body (state_before single_balancer failing_world
                                 test_request i) failing_world test_request i))) [0..<nat 2]
        = map (\<lambda>i. api_error) [0..<nat 2]"
    by (rule map_cong) (simp_all add: attempt_single_failing_isl)
  also have "\<dots> = [api_error, api_error]"
    by (simp add: upt_rec)
  finally show ?thesis
    using all_attempts_fail_aggregate [OF a b c] a c by (simp add: string_of_int_2)
qed

section \<open>Defaults\<close>

lemma attempt_zero_failing:
  "attempt_body (zero_balancer\<lparr>heap := [s]\<rparr>) failing_world test_request i
     = (Inl api_error, zero_balancer\<lparr>heap := [update_record s False 0 0]\<rparr>)"
proof -
  have "try_block (zero_balancer\<lparr>heap := [s]\<rparr>) failing_world test_request i
          = (Inl (LLMErr api_error), zero_balancer\<lparr>heap := [s]\<rparr>)"
    by (simp add: try_block_def zero_balancer_def zero_config_def single_balancer_def
        single_config_def js_index_def openai_def makeRequestWithTimeout_def failing_world_def)
  then show ?thesis
    by (simp add: attempt_body_def api_error_def updateStats_def get_property_def
        zero_balancer_def single_balancer_def deref_def failing_world_def)
qed

lemma state_before_zero_failing:
  "\<exists>s. state_before zero_balancer failing_world test_request i = zero_balancer\<lparr>heap := [s]\<rparr>"
proof (induction i)
  case 0
  have "zero_balancer = zero_balancer\<lparr>heap := [fresh_stats]\<rparr>"
    by (simp add: zero_balancer_def single_balancer_def)
  then show ?case by auto
next
  case (Suc i)
  then obtain s where "state_before zero_balancer failing_world test_request i
            = zero_balancer\<lparr>heap := [s]\<rparr>" by blast
  then have "state_before zero_balancer failing_world test_request (Suc i)
            = zero_balancer\<lparr>heap := [update_record s False 0 0]\<rparr>"
    by (simp add: attempt_zero_failing)
  then show ?case by blast
qed

lemma attempt_zero_failing_Inl:
  "fst (attempt_body (state_before zero_balancer failing_world test_request i)
               failing_world test_request i) = Inl api_error"
proof -
  from state_before_zero_failing [of i] obtain s where
    "state_before zero_balancer failing_world test_request i = zero_balancer\<lparr>heap := [s]\<rparr>"
    by blast
  then show ?thesis by (simp add: attempt_zero_failing)
qed

text \<open>
  C9. A numeric setting equal to 0 counts as absent. With \<open>maxRetries = 0\<close> the loop
  runs with the bound 3, so a request whose attempts all fail collects three errors.
  With \<open>retryDelay = 0\<close> the loop runs with the base delay 1000, so such a request
  waits 1000, 2000, \<dots> between attempts. A descriptor timeout of 0 gives the global
  timeout, or 30000 when that is absent, 0 or \<open>NaN\<close>.
\<close>

theorem zero_settings_fall_back:
  "(maxRetries (config st) = Some 0 \<longrightarrow>
      request st w req
        = request_loop st w req 3 (or_default (retryDelay (config st)) 1000) 0 [] []
      \<and> ((\<forall>i<3. isl (fst (attempt_body (state_before st w req i) w req i))) \<longrightarrow>
           (\<exists>es. fst (request st w req)
                   = Inl (LoadBalancerError ''All providers failed after 3 attempts'' es)
                 \<and> length es = 3)))
   \<and> (retryDelay (config st) = Some 0 \<longrightarrow>
        request st w req
          = request_loop st w req (or_default (maxRetries (config st)) 3) 1000 0 [] []
        \<and> ((\<forall>i<nat (or_default (maxRetries (config st)) 3).
                isl (fst (attempt_body (state_before st w req i) w req i))) \<longrightarrow>
             snd (snd (request st w req))
               = map (\<lambda>i. 1000 * 2 ^ i) [0..<nat (or_default (maxRetries (config st)) 3 - 1)]))
   \<and> (timeout pc = Some (Num 0) \<longrightarrow>
        request_timeout lbc pc
          = (case globalTimeout lbc of
               None \<Rightarrow> Num 30000
             | Some g \<Rightarrow> if g = Num 0 \<or> g = NaN then Num 30000 else g))"
proof (intro conjI impI)
  assume m: "maxRetries (config st) = Some 0"
  then show "request st w req
        = request_loop st w req 3 (or_default (retryDelay (config st)) 1000) 0 [] []"
    by (simp add: request_def)
  assume "\<forall>i<3. isl (fst (attempt_body (state_before st w req i) w req i))"
  then have "\<forall>i<nat 3. isl (fst (attempt_body (state_before st w req i) w req i))" by simp
  from request_loop_all_fail [OF this, of st 0 "or_default (retryDelay (config st)) 1000" "[]" "[]"]
  show "\<exists>es. fst (request st w req)
                   = Inl (LoadBalancerError ''All providers failed after 3 attempts'' es)
                 \<and> length es = 3"
    using m by (simp add: request_def string_of_int_3)
next
  assume d: "retryDelay (config st) = Some 0"
  then show "request st w req
          = request_loop st w req (or_default (maxRetries (config st)) 3) 1000 0 [] []"
    by (simp add: request_def)
  assume "\<forall>i<nat (or_default (maxRetries (config st)) 3).
                isl (fst (attempt_body (state_before st w req i) w req i))"
  from request_loop_all_fail [OF this, of st 0 1000 "[]" "[]"]
  show "snd (snd (request st w req))
               = map (\<lambda>i. 1000 * 2 ^ i) [0..<nat (or_default (maxRetries (config st)) 3 - 1)]"
    using d by (simp add: request_def)
next
  assume "timeout pc = Some (Num 0)"
  then show "request_timeout lbc pc
          = (case globalTimeout lbc of
               None \<Rightarrow> Num 30000
             | Some g \<Rightarrow> if g = Num 0 \<or> g = NaN then Num 30000 else g)"
    by (cases "globalTimeout lbc"; cases "the (globalTimeout lbc)")
       (simp_all add: request_timeout_def)
qed

theorem zero_settings_fall_back_witness:
  "maxRetries (config zero_balancer) = Some 0 \<and> retryDelay (config zero_balancer) = Some 0
   \<and> \<not> (\<exists>i<3. \<not> isl (fst (attempt_body (state_before zero_balancer failing_world test_request i)
                             failing_world test_request i)))
   \<and> timeout (openai\<lparr>timeout := Some (Num 0)\<rparr>) = Some (Num 0)
   \<and> (\<exists>es. fst (request zero_balancer failing_world test_request)
              = Inl (LoadBalancerError ''All providers failed after 3 attempts'' es)
            \<and> length es = 3)
   \<and> snd (snd (request zero_balancer failing_world test_request)) = [1000, 2000]
   \<and> request_timeout single_config (openai\<lparr>timeout := Some (Num 0)\<rparr>) = Num 30000"
proof -
  have m: "maxRetries (config zero_balancer) = Some 0"
    and d: "retryDelay (config zero_balancer) = Some 0"
    by (simp_all add: zero_balancer_def zero_config_def)
  have f: "\<forall>i<3. isl (fst (attempt_body (state_before zero_balancer failing_world test_request i)
                             failing_world test_request i))"
    by (simp add: attempt_zero_failing_Inl)
  have f': "\<forall>i<nat (or_default (maxRetries (config zero_balancer)) 3).
              isl (fst (attempt_body (state_before zero_balancer failing_world test_request i)
                             failing_world test_request i))"
    by (simp add: attempt_zero_failing_Inl)
  have t: "timeout (openai\<lparr>timeout := Some (Num 0)\<rparr>) = Some (Num 0)" by simp
  have g: "globalTimeout single_config = None" by (simp add: single_config_def)
  note inst = zero_settings_fall_back [of zero_balancer failing_world test_request
      "openai\<lparr>timeout := Some (Num 0)\<rparr>" single_config]
  from inst m f have 1: "\<exists>es. fst (request zero_balancer failing_world test_request)
              = Inl (LoadBalancerError ''All providers failed after 3 attempts'' es)
            \<and> length es = 3"
    by blast
  from inst d f' have "snd (snd (request zero_balancer failing_world test_request))
      = map (\<lambda>i. 1000 * 2 ^ i) [0..<nat (or_default (maxRetries (config zero_balancer)) 3 - 1)]"
    by blast
  also have "\<dots> = [1000, 2000]" by (simp add: m upt_rec)
  finally have 2: "snd (snd (request zero_balancer failing_world test_request)) = [1000, 2000]" .
  from inst t g have 3: "request_timeout single_config (openai\<lparr>timeout := Some (Num 0)\<rparr>) = Num 30000"
    by simp
  from m d f t 1 2 3 show ?thesis by blast
qed

section \<open>Timeouts\<close>

lemma number_or_cases:
  "number_or x d = (case x of Some t \<Rightarrow> if t \<noteq> Num 0 \<and> t \<noteq> NaN then t else d | None \<Rightarrow> d)"
  by (cases x; cases "the x") auto

text \<open>
  C8 (amended). The timer of an attempt runs for the selected descriptor's timeout
  when that is set and neither 0 nor \<open>NaN\<close>, otherwise for the global timeout when
  that is set and neither 0 nor \<open>NaN\<close>, otherwise for 30000 ms: the outcome of the
  attempt is the outcome of the race with that duration. When the timer wins, the
  attempt fails with an \<open>LLMError\<close> that carries the selected provider's name, no
  status code, and the message \<open>Request timeout after \<dots>ms\<close> with the duration as
  the engine prints the number.
\<close>

theorem attempt_timeout:
  assumes "selectProvider (strategy st) (cfg_providers (config st)) (stats_view st)
             (math_random w i) = (Inr (Some pc), s')"
    and "providers st (name pc) = Some ad"
  shows "request_timeout (config st) pc
           = (case timeout pc of
                Some t \<Rightarrow> if t \<noteq> Num 0 \<and> t \<noteq> NaN then t
                          else (case globalTimeout (config st) of
                                  Some g \<Rightarrow> if g \<noteq> Num 0 \<and> g \<noteq> NaN then g else Num 30000
                                | None \<Rightarrow> Num 30000)
              | None \<Rightarrow> (case globalTimeout (config st) of
                           Some g \<Rightarrow> if g \<noteq> Num 0 \<and> g \<noteq> NaN then g else Num 30000
                         | None \<Rightarrow> Num 30000))
       \<and> fst (try_block st w req i)
           = (case settle w i ad req (request_timeout (config st) pc) of
                Resolved response \<Rightarrow> Inr response
              | Rejected e \<Rightarrow> Inl e
              | TimerFirst \<Rightarrow>
                  Inl (LLMErr \<lparr>message = ''Request timeout after ''
                                  @ number_to_string w (request_timeout (config st) pc) @ ''ms'',
                               provider = name pc, statusCode = None, originalError = None\<rparr>))
       \<and> (settle w i ad req (request_timeout (config st) pc) = TimerFirst \<longrightarrow>
            fst (attempt_body st w req i)
              = Inl \<lparr>message = ''Request timeout after ''
                         @ number_to_string w (request_timeout (config st) pc) @ ''ms'',
                     provider = name pc, statusCode = None, originalError = None\<rparr>)"
proof -
  have 1: "request_timeout (config st) pc
           = (case timeout pc of
                Some t \<Rightarrow> if t \<noteq> Num 0 \<and> t \<noteq> NaN then t
                          else (case globalTimeout (config st) of
                                  Some g \<Rightarrow> if g \<noteq> Num 0 \<and> g \<noteq> NaN then g else Num 30000
                                | None \<Rightarrow> Num 30000)
              | None \<Rightarrow> (case globalTimeout (config st) of
                           Some g \<Rightarrow> if g \<noteq> Num 0 \<and> g \<noteq> NaN then g else Num 30000
                         | None \<Rightarrow> Num 30000))"
    unfolding request_timeout_def
    by (simp only: number_or_cases [of "timeout pc"] number_or_cases [of "globalTimeout (config st)"])
  have 2: "fst (try_block st w req i)
           = (case settle w i ad req (request_timeout (config st) pc) of
                Resolved response \<Rightarrow> Inr response
              | Rejected e \<Rightarrow> Inl e
              | TimerFirst \<Rightarrow>
                  Inl (LLMErr \<lparr>message = ''Request timeout after ''
                                  @ number_to_string w (request_timeout (config st) pc) @ ''ms'',
                               provider = name pc, statusCode = None, originalError = None\<rparr>))"
    using assms
    by (simp add: try_block_def makeRequestWithTimeout_def Let_def split: race_outcome.splits)
  have 3: "fst (attempt_body st w req i)
              = Inl \<lparr>message = ''Request timeout after ''
                         @ number_to_string w (request_timeout (config st) pc) @ ''ms'',
                     provider = name pc, statusCode = None, originalError = None\<rparr>"
    if "settle w i ad req (request_timeout (config st) pc) = TimerFirst"
  proof -
    obtain r st' where t: "try_block st w req i = (r, st')" by (cases "try_block st w req i")
    with 2 that show ?thesis by (simp add: attempt_body_def Let_def)
  qed
  from 1 2 3 show ?thesis by blast
qed

lemma new_timeout_balancer: "new_LLMLoadBalancer (timeout_config t g) = Inr (timeout_balancer t g)"
  by (simp add: new_LLMLoadBalancer_def timeout_config_def single_config_def createProvider_def
      openai_def toLowerCase_def class_of_name_def timeout_balancer_def)

lemma timeout_balancer_select:
  "selectProvider (strategy (timeout_balancer t g)) (cfg_providers (config (timeout_balancer t g)))
       (stats_view (timeout_balancer t g)) (math_random slow_world 0)
     = (Inr (Some (openai\<lparr>timeout := t\<rparr>)), RoundRobinStrategy 0)"
  by (simp add: timeout_balancer_def timeout_config_def single_config_def js_index_def)

lemma timeout_balancer_adapter:
  "providers (timeout_balancer t g) (name (openai\<lparr>timeout := t\<rparr>))
     = Some \<lparr>provider_class = OpenAIProvider, provider_config = openai\<lparr>timeout := t\<rparr>\<rparr>"
  by (simp add: timeout_balancer_def openai_def)

lemma timeout_balancer_timeout:
  "request_timeout (config (timeout_balancer t g)) (openai\<lparr>timeout := t\<rparr>)
     = number_or t (number_or g (Num 30000))"
  by (simp add: request_timeout_def timeout_balancer_def timeout_config_def)

lemma number_to_string_1500: "number_to_string w (Num 1500) = ''1500''"
  by (simp add: number_to_string_def string_of_int_1500)

lemma number_to_string_7000: "number_to_string w (Num 7000) = ''7000''"
  by (simp add: number_to_string_def string_of_int_7000)

lemma number_to_string_30000: "number_to_string w (Num 30000) = ''30000''"
  by (simp add: number_to_string_def string_of_int_30000)

theorem attempt_timeout_witness:
  "new_LLMLoadBalancer (timeout_config (Some (Num 1500)) (Some (Num 7000)))
     = Inr (timeout_balancer (Some (Num 1500)) (Some (Num 7000)))
   \<and> selectProvider (strategy (timeout_balancer (Some (Num 1500)) (Some (Num 7000))))
       (cfg_providers (config (timeout_balancer (Some (Num 1500)) (Some (Num 7000)))))
       (stats_view (timeout_balancer (Some (Num 1500)) (Some (Num 7000))))
       (math_random slow_world 0)
     = (Inr (Some (openai\<lparr>timeout := Some (Num 1500)\<rparr>)), RoundRobinStrategy 0)
   \<and> providers (timeout_balancer (Some (Num 1500)) (Some (Num 7000)))
         (name (openai\<lparr>timeout := Some (Num 1500)\<rparr>))
       = Some \<lparr>provider_class = OpenAIProvider,
               provider_config = openai\<lparr>timeout := Some (Num 1500)\<rparr>\<rparr>
   \<and> request_timeout (config (timeout_balancer (Some (Num 1500)) (Some (Num 7000))))
         (openai\<lparr>timeout := Some (Num 1500)\<rparr>) = Num 1500
   \<and> settle slow_world 0
         \<lparr>provider_class = OpenAIProvider,
          provider_config = openai\<lparr>timeout := Some (Num 1500)\<rparr>\<rparr> test_request (Num 1500)
       = TimerFirst
   \<and> fst (attempt_body (timeout_balancer (Some (Num 1500)) (Some (Num 7000))) slow_world
            test_request 0)
       = Inl \<lparr>message = ''Request timeout after 1500ms'', provider = ''openai'',
              statusCode = None, originalError = None\<rparr>
   \<and> request_timeout (config (timeout_balancer (Some NaN) (Some (Num 7000))))
         (openai\<lparr>timeout := Some NaN\<rparr>) = Num 7000
   \<and> fst (attempt_body (timeout_balancer (Some NaN) (Some (Num 7000))) slow_world
            test_request 0)
       = Inl \<lparr>message = ''Request timeout after 7000ms'', provider = ''openai'',
              statusCode = None, originalError = None\<rparr>
   \<and> request_timeout (config (timeout_balancer None (Some (Num 0)))) (openai\<lparr>timeout := None\<rparr>)
       = Num 30000
   \<and> fst (attempt_body (timeout_balancer None (Some (Num 0))) slow_world test_request 0)
       = Inl \<lparr>message = ''Request timeout after 30000ms'', provider = ''openai'',
              statusCode = None, originalError = None\<rparr>"
proof -
  have c: "settle slow_world 0 ad test_request x = TimerFirst" for ad x
    by (simp add: slow_world_def)
  have n: "name (openai\<lparr>timeout := t\<rparr>) = ''openai''" for t
    by (simp add: openai_def)
  have r: "fst (attempt_body (timeout_balancer t g) slow_world test_request 0)
             = Inl \<lparr>message = ''Request timeout after ''
                        @ number_to_string slow_world (number_or t (number_or g (Num 30000)))
                        @ ''ms'',
                    provider = ''openai'', statusCode = None, originalError = None\<rparr>" for t g
    using attempt_timeout [OF timeout_balancer_select timeout_balancer_adapter, of t g test_request]
    by (simp only: timeout_balancer_timeout c n)
  have 1: "fst (attempt_body (timeout_balancer (Some (Num 1500)) (Some (Num 7000))) slow_world
                  test_request 0)
       = Inl \<lparr>message = ''Request timeout after 1500ms'', provider = ''openai'',
              statusCode = None, originalError = None\<rparr>"
    by (simp add: r number_to_string_1500)
  have 2: "fst (attempt_body (timeout_balancer (Some NaN) (Some (Num 7000))) slow_world
                  test_request 0)
       = Inl \<lparr>message = ''Request timeout after 7000ms'', provider = ''openai'',
              statusCode = None, originalError = None\<rparr>"
    by (simp add: r number_to_string_7000)
  have 3: "fst (attempt_body (timeout_balancer None (Some (Num 0))) slow_world test_request 0)
       = Inl \<lparr>message = ''Request timeout after 30000ms'', provider = ''openai'',
              statusCode = None, originalError = None\<rparr>"
    by (simp add: r number_to_string_30000)
  have t1: "request_timeout (config (timeout_balancer (Some (Num 1500)) (Some (Num 7000))))
         (openai\<lparr>timeout := Some (Num 1500)\<rparr>) = Num 1500"
    and t2: "request_timeout (config (timeout_balancer (Some NaN) (Some (Num 7000))))
         (openai\<lparr>timeout := Some NaN\<rparr>) = Num 7000"
    and t3: "request_timeout (config (timeout_balancer None (Some (Num 0))))
         (openai\<lparr>timeout := None\<rparr>) = Num 30000"
    by (simp_all add: timeout_balancer_timeout)
  show ?thesis
    by (intro conjI new_timeout_balancer timeout_balancer_select timeout_balancer_adapter
        t1 t2 t3 1 2 3 c)
qed

text \<open>
  C8 as stated fails for a descriptor whose timeout is set to 0: the timer runs for
  30000 ms, not for 0 ms. The same holds for a timeout set to \<open>NaN\<close>.
\<close>

theorem zero_timeout_is_not_used:
  "timeout (openai\<lparr>timeout := Some (Num 0)\<rparr>) = Some (Num 0)
   \<and> globalTimeout single_config = None
   \<and> request_timeout single_config (openai\<lparr>timeout := Some (Num 0)\<rparr>) = Num 30000
   \<and> request_timeout single_config (openai\<lparr>timeout := Some NaN\<rparr>) = Num 30000"
  by (simp add: request_timeout_def single_config_def)

section \<open>Snapshots\<close>

text \<open>
  C4. \<open>getStats\<close> copies the map, not the records: the record a snapshot holds for
  \<open>openai\<close> reads all zero when the snapshot is taken, and one successful request
  later the same snapshot reads \<open>totalRequests = 1\<close>.
\<close>

theorem snapshot_shares_records:
  "read_snapshot (getStats single_balancer) single_balancer ''openai'' = Some fresh_stats
   \<and> read_snapshot (getStats single_balancer)
         (fst (snd (request single_balancer ok_world test_request))) ''openai''
       = Some \<lparr>totalRequests = 1, successfulRequests = 1, failedRequests = 0,
               averageResponseTime = Num 120, lastRequestTime = Some 0, isHealthy = True\<rparr>"
proof -
  have t: "try_block single_balancer ok_world test_request 0
             = (Inr ok_response,
                single_balancer\<lparr>heap := [update_record fresh_stats True 120 0]\<rparr>)"
    by (simp add: try_block_def single_balancer_def single_config_def js_index_def openai_def
        makeRequestWithTimeout_def ok_world_def updateStats_def get_property_def deref_def)
  have "request single_balancer ok_world test_request
          = request_loop single_balancer ok_world test_request 2 10 0 [] []"
    by (simp add: request_def single_balancer_def single_config_def)
  then have "fst (snd (request single_balancer ok_world test_request))
          = single_balancer\<lparr>heap := [update_record fresh_stats True 120 0]\<rparr>"
    by (simp add: request_loop.simps attempt_body_def t)
  moreover have "update_record fresh_stats True 120 0
       = \<lparr>totalRequests = 1, successfulRequests = 1, failedRequests = 0,
               averageResponseTime = Num 120, lastRequestTime = Some 0, isHealthy = True\<rparr>"
    by (simp only: update_record_def Let_def) (simp add: fresh_stats_def number_defs)
  ultimately show ?thesis
    by (simp add: read_snapshot_def getStats_def single_balancer_def deref_def)
qed

section \<open>Adding a provider\<close>

lemma initializeProviders_dom:
  "initializeProviders pcs (pm, sm, h) = Inr (pm', sm', h') \<Longrightarrow>
     dom pm' = dom pm \<union> name ` set pcs
     \<and> (\<forall>n\<in>name ` set pcs. class_of_name (toLowerCase n) \<noteq> None)"
proof (induction pcs arbitrary: pm sm h)
  case Nil
  then show ?case by auto
next
  case (Cons pc pcs)
  from Cons.prems obtain ad where ad: "createProvider pc = Inr ad"
    and rest: "initializeProviders pcs (pm(name pc \<mapsto> ad), sm(name pc \<mapsto> length h), h @ [fresh_stats])
       = Inr (pm', sm', h')"
    by (auto split: sum.splits)
  from createProvider_Inr [OF ad] Cons.IH [OF rest] show ?case by auto
qed

lemma createStrategy_Inr:
  "createStrategy k ps cs = Inr s \<Longrightarrow> k = CustomKind \<longrightarrow> cs \<noteq> None"
  by (cases k) (auto split: option.splits)

lemma new_consistent:
  assumes "new_LLMLoadBalancer cfg = Inr st"
  shows "consistent st"
proof -
  from assms obtain pm sm h s where
    i: "initializeProviders (cfg_providers cfg) (Map.empty, Map.empty, []) = Inr (pm, sm, h)"
    and c: "createStrategy (cfg_strategy cfg) (cfg_providers cfg) (customStrategy cfg) = Inr s"
    and st: "st = \<lparr>providers = pm, strategy = s, stats = sm, config = cfg, heap = h\<rparr>"
    by (auto simp: new_LLMLoadBalancer_def split: sum.splits)
  from initializeProviders_dom [OF i] createStrategy_Inr [OF c] show ?thesis
    by (simp add: consistent_def st)
qed

lemma consistent_frame:
  "providers st' = providers st \<Longrightarrow> config st' = config st \<Longrightarrow> consistent st \<Longrightarrow> consistent st'"
  by (simp add: consistent_def)

lemma addProvider_consistent:
  assumes "consistent st"
  shows "consistent (snd (addProvider st d))"
proof (cases "createProvider d")
  case (Inl e)
  with assms show ?thesis by (simp add: addProvider_def)
next
  case (Inr ad)
  let ?st = "st\<lparr>providers := (providers st)(name d \<mapsto> ad),
                config := (config st)\<lparr>cfg_providers := cfg_providers (config st) @ [d]\<rparr>,
                stats := (stats st)(name d \<mapsto> length (heap st)),
                heap := heap st @ [fresh_stats]\<rparr>"
  from assms have s: "\<forall>n\<in>dom (providers st). class_of_name (toLowerCase n) \<noteq> None"
    and dm: "dom (providers st) = name ` set (cfg_providers (config st))"
    and cs: "cfg_strategy (config st) = CustomKind \<longrightarrow> customStrategy (config st) \<noteq> None"
    by (simp_all add: consistent_def)
  have 1: "\<forall>n\<in>dom (providers ?st). class_of_name (toLowerCase n) \<noteq> None"
    using s createProvider_Inr [OF Inr] by simp
  have 2: "dom (providers ?st) = name ` set (cfg_providers (config ?st))"
    using dm by simp
  have 3: "cfg_strategy (config ?st) = CustomKind \<longrightarrow> customStrategy (config ?st) \<noteq> None"
    using cs by simp
  from 1 2 3 have c: "consistent ?st" unfolding consistent_def by (intro conjI)
  have "consistent (snd (rebuild_strategy ?st))"
    by (rule consistent_frame [OF _ _ c]) (simp_all only: rebuild_strategy_frame)
  with Inr show ?thesis by (simp add: addProvider_def)
qed

lemma names_filter: "name ` {p \<in> set ps. name p \<noteq> n} = name ` set ps - {n}"
  by auto

lemma removeProvider_consistent:
  assumes "consistent st"
  shows "consistent (snd (removeProvider st n))"
proof -
  let ?st = "st\<lparr>providers := (providers st)(n := None),
           config := (config st)\<lparr>cfg_providers :=
                        filter (\<lambda>p. name p \<noteq> n) (cfg_providers (config st))\<rparr>,
           stats := (stats st)(n := None)\<rparr>"
  from assms have s: "\<forall>n\<in>dom (providers st). class_of_name (toLowerCase n) \<noteq> None"
    and dm: "dom (providers st) = name ` set (cfg_providers (config st))"
    and cs: "cfg_strategy (config st) = CustomKind \<longrightarrow> customStrategy (config st) \<noteq> None"
    by (simp_all add: consistent_def)
  have 1: "\<forall>m\<in>dom (providers ?st). class_of_name (toLowerCase m) \<noteq> None"
    using s by simp
  have 2: "dom (providers ?st) = name ` set (cfg_providers (config ?st))"
    using dm by (simp add: names_filter)
  have 3: "cfg_strategy (config ?st) = CustomKind \<longrightarrow> customStrategy (config ?st) \<noteq> None"
    using cs by simp
  from 1 2 3 have c: "consistent ?st" unfolding consistent_def by (intro conjI)
  have "consistent (snd (rebuild_strategy ?st))"
    by (rule consistent_frame [OF _ _ c]) (simp_all only: rebuild_strategy_frame)
  then show ?thesis by (simp add: removeProvider_def)
qed

lemma apply_op_consistent:
  assumes "consistent st"
  shows "consistent (apply_op st op)"
proof (cases op)
  case (Request w req)
  then show ?thesis
    using assms request_loop_frame [of st w req "or_default (maxRetries (config st)) 3"
        "or_default (retryDelay (config st)) 1000" 0 "[]" "[]"]
    by (simp add: request_def consistent_def)
next
  case (HealthCheck w)
  then show ?thesis
    using assms healthCheck_frame [of st w]
    by (simp add: consistent_def)
next
  case (AddProvider d)
  with assms show ?thesis by (simp add: addProvider_consistent)
next
  case (RemoveProvider n)
  with assms show ?thesis by (simp add: removeProvider_consistent)
next
  case (RecordAttempt n ok rt d)
  with assms show ?thesis by (simp add: consistent_def)
qed

lemma run_consistent: "consistent st \<Longrightarrow> consistent (run st ops)"
proof (induction ops arbitrary: st)
  case Nil
  then show ?case by (simp add: run_def)
next
  case (Cons op ops)
  from Cons.prems have "consistent (apply_op st op)" by (rule apply_op_consistent)
  then have "consistent (run (apply_op st op) ops)" by (rule Cons.IH)
  then show ?case by (simp add: run_def)
qed

text \<open>
  C10. In any state reached from the constructor, \<open>addProvider\<close> with a descriptor
  whose name is already registered returns normally; the adapter under that name is
  the one built from the new descriptor, the descriptor is appended to the configured
  list, which then holds at least two descriptors of that name, and the statistics
  entry of the name is a fresh record.
\<close>

theorem addProvider_registered_name:
  assumes "new_LLMLoadBalancer cfg = Inr st0" and "providers (run st0 ops) (name d) \<noteq> None"
  shows "\<exists>ad. createProvider d = Inr ad \<and> provider_config ad = d
     \<and> fst (addProvider (run st0 ops) d) = None
     \<and> providers (snd (addProvider (run st0 ops) d)) (name d) = Some ad
     \<and> cfg_providers (config (snd (addProvider (run st0 ops) d)))
         = cfg_providers (config (run st0 ops)) @ [d]
     \<and> 2 \<le> length (filter (\<lambda>p. name p = name d)
                      (cfg_providers (config (snd (addProvider (run st0 ops) d)))))
     \<and> stats_view (snd (addProvider (run st0 ops) d)) (name d) = Some fresh_stats"
proof -
  let ?st = "run st0 ops"
  from new_consistent [OF assms(1)] have c: "consistent ?st" by (rule run_consistent)
  from assms(2) have dm: "name d \<in> dom (providers ?st)" by auto
  with c have "class_of_name (toLowerCase (name d)) \<noteq> None" by (simp add: consistent_def)
  then obtain k where k: "class_of_name (toLowerCase (name d)) = Some k" by auto
  let ?ad = "\<lparr>provider_class = k, provider_config = d\<rparr>"
  have ad: "createProvider d = Inr ?ad" by (simp add: createProvider_def k)
  let ?st1 = "?st\<lparr>providers := (providers ?st)(name d \<mapsto> ?ad),
                config := (config ?st)\<lparr>cfg_providers := cfg_providers (config ?st) @ [d]\<rparr>,
                stats := (stats ?st)(name d \<mapsto> length (heap ?st)),
                heap := heap ?st @ [fresh_stats]\<rparr>"
  have add: "addProvider ?st d = rebuild_strategy ?st1" by (simp add: addProvider_def ad)
  from c have "cfg_strategy (config ?st1) = CustomKind \<longrightarrow> customStrategy (config ?st1) \<noteq> None"
    by (simp add: consistent_def)
  then have ok: "fst (rebuild_strategy ?st1) = None" by (rule rebuild_strategy_ok)
  note fr = rebuild_strategy_frame [of ?st1]
  from dm c obtain p where p: "p \<in> set (cfg_providers (config ?st))" "name p = name d"
    by (auto simp: consistent_def)
  then have "filter (\<lambda>p. name p = name d) (cfg_providers (config ?st)) \<noteq> []"
    by (auto simp: filter_empty_conv)
  then have "1 \<le> length (filter (\<lambda>p. name p = name d) (cfg_providers (config ?st)))"
    by (cases "filter (\<lambda>p. name p = name d) (cfg_providers (config ?st))") auto
  then have two: "2 \<le> length (filter (\<lambda>p. name p = name d) (cfg_providers (config ?st) @ [d]))"
    by simp
  have view: "stats_view (snd (rebuild_strategy ?st1)) (name d) = Some fresh_stats"
    using fr by (simp add: stats_view_def deref_def)
  show ?thesis
    using ad ok fr two view by (intro exI [of _ ?ad]) (simp add: add)
qed

theorem addProvider_registered_name_witness:
  "new_LLMLoadBalancer single_config = Inr single_balancer
   \<and> providers (run single_balancer [Request failing_world test_request]) (name rekeyed_openai) \<noteq> None
   \<and> fst (addProvider (run single_balancer [Request failing_world test_request]) rekeyed_openai) = None
   \<and> cfg_providers (config (snd (addProvider (run single_balancer
         [Request failing_world test_request]) rekeyed_openai))) = [openai, rekeyed_openai]
   \<and> stats_view (run single_balancer [Request failing_world test_request]) ''openai''
       = Some \<lparr>totalRequests = 2, successfulRequests = 0, failedRequests = 2,
               averageResponseTime = Num 0, lastRequestTime = Some 0, isHealthy = False\<rparr>
   \<and> stats_view (snd (addProvider (run single_balancer [Request failing_world test_request])
         rekeyed_openai)) ''openai'' = Some fresh_stats"
proof -
  let ?st = "run single_balancer [Request failing_world test_request]"
  have fr: "providers ?st = providers single_balancer \<and> config ?st = config single_balancer"
    using request_loop_frame [of single_balancer failing_world test_request
        "or_default (maxRetries (config single_balancer)) 3"
        "or_default (retryDelay (config single_balancer)) 1000" 0 "[]" "[]"]
    by (simp add: run_def request_def)
  have n: "name rekeyed_openai = ''openai''" by (simp add: rekeyed_openai_def openai_def)
  have "providers single_balancer ''openai'' \<noteq> None"
    by (simp add: single_balancer_def)
  with fr have b: "providers ?st (name rekeyed_openai) \<noteq> None"
    by (simp add: n)
  have "cfg_providers (config single_balancer) = [openai]"
    by (simp add: single_balancer_def single_config_def)
  with fr have cp: "cfg_providers (config ?st) = [openai]"
    by simp
  from addProvider_registered_name [OF new_single_balancer b]
  have "fst (addProvider ?st rekeyed_openai) = None
     \<and> cfg_providers (config (snd (addProvider ?st rekeyed_openai))) = [openai, rekeyed_openai]
     \<and> stats_view (snd (addProvider ?st rekeyed_openai)) ''openai'' = Some fresh_stats"
    by (auto simp: cp n)
  with failed_request_stats new_single_balancer b show ?thesis by simp
qed

end
